theory Spec2Isabelle
  imports Complex_Main
begin

section \<open>Inter-rater reliability statistics of \<open>Scripts/irr_calculator.py\<close>\<close>

text \<open>
  The statistics work on lists of normalised ratings, one entry per subject: an integer, or
  \<open>None\<close> for a missing rating. Python floats are modelled by exact rationals; rounding
  is not modelled. Where numpy divides, the IEEE results of a division by zero (\<open>inf\<close>,
  \<open>-inf\<close>, \<open>nan\<close>) are values of \<open>npfloat\<close>.
\<close>

type_synonym rating = "int option"

subsection \<open>Valid pairs and percent agreement\<close>

text \<open>
  \<^verbatim>\<open>valid_pairs = [(v1, v2) for v1, v2 in zip(values1, values2)
                 if v1 is not None and v2 is not None]\<close>
\<close>

definition valid_pairs :: "'a option list \<Rightarrow> 'a option list \<Rightarrow> ('a \<times> 'a) list" where
  "valid_pairs values1 values2 =
     map (\<lambda>(v1, v2). (the v1, the v2))
       (filter (\<lambda>(v1, v2). v1 \<noteq> None \<and> v2 \<noteq> None) (zip values1 values2))"

text \<open>\<^verbatim>\<open>matches = sum(1 for v1, v2 in valid_pairs if v1 == v2)\<close>\<close>

definition matches :: "('a \<times> 'a) list \<Rightarrow> nat" where
  "matches vp = length (filter (\<lambda>(v1, v2). v1 = v2) vp)"

definition calculate_agreement :: "rating list \<Rightarrow> rating list \<Rightarrow> rat option" where
  "calculate_agreement values1 values2 =
     (let vp = valid_pairs values1 values2 in
      if length vp = 0 then None
      else Some (of_nat (matches vp) / of_nat (length vp)))"

text \<open>
  The index sets the specification speaks of: the subjects rated by both raters, and among
  them the subjects on which the two ratings are equal.
\<close>

definition valid_idx :: "'a option list \<Rightarrow> 'a option list \<Rightarrow> nat set" where
  "valid_idx values1 values2 =
     {i. i < length values1 \<and> i < length values2 \<and> values1 ! i \<noteq> None \<and> values2 ! i \<noteq> None}"

definition match_idx :: "'a option list \<Rightarrow> 'a option list \<Rightarrow> nat set" where
  "match_idx values1 values2 =
     {i. i < length values1 \<and> i < length values2 \<and> values1 ! i \<noteq> None \<and> values2 ! i \<noteq> None
         \<and> values1 ! i = values2 ! i}"

subsection \<open>Gwet's AC1 for two raters\<close>

text \<open>
  \<^verbatim>\<open>calculate_gwet_ac1\<close>. \<open>categories = sorted(set(all_vals))\<close>; \<open>pi_k\<close> is a dict
  filled in the order of \<open>categories\<close>, and \<open>pi_k.values()\<close> keeps that order. With
  integer ratings nothing in the body raises, so the \<open>except\<close> branch is not reached.
\<close>

definition calculate_gwet_ac1 :: "rating list \<Rightarrow> rating list \<Rightarrow> rat option" where
  "calculate_gwet_ac1 values1 values2 =
     (let vp = valid_pairs values1 values2 in
      if length vp < 2 then None
      else
        let v1 = map fst vp; v2 = map snd vp; n = length v1;
            pa = of_nat (matches (zip v1 v2)) / of_nat n;
            all_vals = v1 @ v2;
            categories = sort (remdups all_vals);
            q = length categories
        in if q < 2 then None
           else
             let pi_k = map (\<lambda>cat. of_nat (length (filter (\<lambda>v. v = cat) all_vals))
                                     / of_nat (2 * n)) categories;
                 pe = (1 / of_nat (q - 1)) * sum_list (map (\<lambda>pk. pk * (1 - pk)) pi_k)
             in if pe = 1 then None else Some ((pa - pe) / (1 - pe)))"

text \<open>
  The quantities of the specification: the categories pooled from both raters' valid values,
  the pooled proportion of a category, the chance agreement and the observed agreement.
\<close>

definition ac1_categories :: "rating list \<Rightarrow> rating list \<Rightarrow> int set" where
  "ac1_categories values1 values2 =
     fst ` set (valid_pairs values1 values2) \<union> snd ` set (valid_pairs values1 values2)"

definition ac1_pi :: "rating list \<Rightarrow> rating list \<Rightarrow> int \<Rightarrow> rat" where
  "ac1_pi values1 values2 k =
     of_nat (card {i \<in> valid_idx values1 values2. values1 ! i = Some k}
             + card {i \<in> valid_idx values1 values2. values2 ! i = Some k})
     / of_nat (2 * card (valid_idx values1 values2))"

definition ac1_pe :: "rating list \<Rightarrow> rating list \<Rightarrow> rat" where
  "ac1_pe values1 values2 =
     (1 / of_nat (card (ac1_categories values1 values2) - 1))
     * (\<Sum>k \<in> ac1_categories values1 values2.
          ac1_pi values1 values2 k * (1 - ac1_pi values1 values2 k))"

definition ac1_pa :: "rating list \<Rightarrow> rating list \<Rightarrow> rat" where
  "ac1_pa values1 values2 =
     of_nat (card (match_idx values1 values2)) / of_nat (card (valid_idx values1 values2))"

subsection \<open>Krippendorff's Alpha\<close>

text \<open>
  \<^verbatim>\<open>calculate_krippendorff_alpha(*value_lists, level)\<close>. The data matrix is read by index,
  \<^verbatim>\<open>row = [vl[i] for vl in value_lists]\<close> for \<open>i < len(value_lists[0])\<close>: with no list at
  all, or with a list shorter than the first, this raises IndexError, which the
  \<^verbatim>\<open>except Exception\<close> of the function turns into \<open>None\<close>.
\<close>

definition non_none :: "rating list \<Rightarrow> int list" where
  "non_none row = map the (filter (\<lambda>v. v \<noteq> None) row)"

definition reliability_data :: "'a option list list \<Rightarrow> 'a option list list option" where
  "reliability_data value_lists =
     (case value_lists of
        [] \<Rightarrow> None
      | vl0 # _ \<Rightarrow>
          let n_subjects = length vl0 in
          if list_ex (\<lambda>vl. length vl < n_subjects) value_lists then None
          else Some (map (\<lambda>i. map (\<lambda>vl. vl ! i) value_lists) [0..<n_subjects]))"

text \<open>
  \<^verbatim>\<open>val_to_rank = {v: i for i, v in enumerate(sorted_vals)}\<close>: the position of a value in
  the sorted list of distinct values. The distance \<open>delta\<close> is chosen by the string
  \<open>level\<close>; every level other than \<open>nominal\<close> and \<open>ordinal\<close> takes the last branch.
\<close>

definition val_to_rank :: "int list \<Rightarrow> int \<Rightarrow> nat" where
  "val_to_rank sorted_vals v = length (takeWhile (\<lambda>c. c \<noteq> v) sorted_vals)"

definition delta :: "string \<Rightarrow> int list \<Rightarrow> int \<Rightarrow> int \<Rightarrow> rat" where
  "delta level all_values a b =
     (if level = ''nominal'' then (if a = b then 0 else 1)
      else if level = ''ordinal'' then
        (let sorted_vals = sort (remdups all_values)
         in of_int ((int (val_to_rank sorted_vals a) - int (val_to_rank sorted_vals b))\<^sup>2))
      else of_int ((a - b)\<^sup>2))"

text \<open>
  The double loop \<^verbatim>\<open>for i in range(n): for j in range(i + 1, n)\<close> over a list.
\<close>

definition index_pairs :: "'a list \<Rightarrow> ('a \<times> 'a) list" where
  "index_pairs xs =
     concat (map (\<lambda>i. map (\<lambda>j. (xs ! i, xs ! j)) [i + 1..<length xs]) [0..<length xs])"

definition calculate_krippendorff_alpha :: "rating list list \<Rightarrow> string \<Rightarrow> rat option" where
  "calculate_krippendorff_alpha value_lists level =
     (case reliability_data value_lists of
        None \<Rightarrow> None
      | Some data \<Rightarrow>
          let valid_data = filter (\<lambda>row. 2 \<le> length (non_none row)) data in
          if length valid_data < 2 then None
          else
            let all_values = concat (map non_none valid_data) in
            if length (remdups all_values) < 2 then None
            else
              let subject_pairs = concat (map (\<lambda>row. index_pairs (non_none row)) valid_data);
                  total_pairs = length subject_pairs
              in if total_pairs = 0 then None
                 else
                   let Do = sum_list (map (\<lambda>(a, b). delta level all_values a b) subject_pairs)
                            / of_nat total_pairs;
                       value_pairs = index_pairs all_values;
                       total_expected_pairs = length value_pairs
                   in if total_expected_pairs = 0 then None
                      else
                        let De = sum_list (map (\<lambda>(a, b). delta level all_values a b) value_pairs)
                                 / of_nat total_expected_pairs
                        in if De = 0 then None else Some (1 - Do / De))"

text \<open>
  The quantities of the specification. Every value against every other value: the unordered
  pairs of a list. The subjects used are the rows of the subject by rater matrix with at
  least two non-missing ratings; the pooled values are the non-missing ratings of those
  subjects.
\<close>

fun pairs :: "'a list \<Rightarrow> ('a \<times> 'a) list" where
  "pairs [] = []"
| "pairs (x # xs) = map (Pair x) xs @ pairs xs"

definition mean_distance :: "(int \<Rightarrow> int \<Rightarrow> rat) \<Rightarrow> (int \<times> int) list \<Rightarrow> rat" where
  "mean_distance d ps = sum_list (map (\<lambda>(a, b). d a b) ps) / of_nat (length ps)"

definition kripp_subjects :: "rating list list \<Rightarrow> rating list list" where
  "kripp_subjects value_lists =
     filter (\<lambda>row. 2 \<le> length (non_none row)) (transpose value_lists)"

definition kripp_values :: "rating list list \<Rightarrow> int list" where
  "kripp_values value_lists = concat (map non_none (kripp_subjects value_lists))"

definition kripp_Do :: "rating list list \<Rightarrow> string \<Rightarrow> rat" where
  "kripp_Do value_lists level =
     mean_distance (delta level (kripp_values value_lists))
       (concat (map (\<lambda>row. pairs (non_none row)) (kripp_subjects value_lists)))"

definition kripp_De :: "rating list list \<Rightarrow> string \<Rightarrow> rat" where
  "kripp_De value_lists level =
     mean_distance (delta level (kripp_values value_lists)) (pairs (kripp_values value_lists))"

subsection \<open>numpy floats\<close>

text \<open>
  A float of numpy is a rational, an infinity or \<open>nan\<close>. Dividing by zero in numpy does
  not raise: it gives \<open>inf\<close>, \<open>-inf\<close> or \<open>nan\<close>, and these propagate by the IEEE rules.
  The sign of a zero is not modelled. Comparisons with \<open>nan\<close> are false.
\<close>

datatype npfloat = Fin rat | PInf | NInf | NaN

fun np_add :: "npfloat \<Rightarrow> npfloat \<Rightarrow> npfloat" where
  "np_add (Fin a) (Fin b) = Fin (a + b)"
| "np_add NaN _ = NaN"
| "np_add _ NaN = NaN"
| "np_add PInf NInf = NaN"
| "np_add NInf PInf = NaN"
| "np_add PInf _ = PInf"
| "np_add _ PInf = PInf"
| "np_add NInf _ = NInf"
| "np_add _ NInf = NInf"

fun np_neg :: "npfloat \<Rightarrow> npfloat" where
  "np_neg (Fin a) = Fin (- a)"
| "np_neg PInf = NInf"
| "np_neg NInf = PInf"
| "np_neg NaN = NaN"

definition np_sub :: "npfloat \<Rightarrow> npfloat \<Rightarrow> npfloat" where
  "np_sub x y = np_add x (np_neg y)"

definition np_signed_inf :: "rat \<Rightarrow> npfloat" where
  "np_signed_inf s = (if 0 < s then PInf else if s < 0 then NInf else NaN)"

fun np_mul :: "npfloat \<Rightarrow> npfloat \<Rightarrow> npfloat" where
  "np_mul (Fin a) (Fin b) = Fin (a * b)"
| "np_mul NaN _ = NaN"
| "np_mul _ NaN = NaN"
| "np_mul PInf PInf = PInf"
| "np_mul PInf NInf = NInf"
| "np_mul NInf PInf = NInf"
| "np_mul NInf NInf = PInf"
| "np_mul PInf (Fin b) = np_signed_inf b"
| "np_mul (Fin a) PInf = np_signed_inf a"
| "np_mul NInf (Fin b) = np_signed_inf (- b)"
| "np_mul (Fin a) NInf = np_signed_inf (- a)"

fun np_div :: "npfloat \<Rightarrow> npfloat \<Rightarrow> npfloat" where
  "np_div (Fin a) (Fin b) = (if b = 0 then np_signed_inf a else Fin (a / b))"
| "np_div NaN _ = NaN"
| "np_div _ NaN = NaN"
| "np_div (Fin a) PInf = Fin 0"
| "np_div (Fin a) NInf = Fin 0"
| "np_div PInf (Fin b) = (if b < 0 then NInf else PInf)"
| "np_div NInf (Fin b) = (if b < 0 then PInf else NInf)"
| "np_div PInf PInf = NaN"
| "np_div PInf NInf = NaN"
| "np_div NInf PInf = NaN"
| "np_div NInf NInf = NaN"

fun np_less :: "npfloat \<Rightarrow> npfloat \<Rightarrow> bool" where
  "np_less (Fin a) (Fin b) = (a < b)"
| "np_less NaN _ = False"
| "np_less _ NaN = False"
| "np_less NInf NInf = False"
| "np_less NInf _ = True"
| "np_less _ NInf = False"
| "np_less PInf _ = False"
| "np_less _ PInf = True"

definition np_sum :: "npfloat list \<Rightarrow> npfloat" where
  "np_sum xs = foldl np_add (Fin 0) xs"

definition np_mean :: "npfloat list \<Rightarrow> npfloat" where
  "np_mean xs = np_div (np_sum xs) (Fin (of_nat (length xs)))"

text \<open>
  Python's \<^verbatim>\<open>min(a, b)\<close> and \<^verbatim>\<open>max(a, b)\<close> keep the first argument unless the second is
  strictly smaller (greater).
\<close>

definition py_min :: "npfloat \<Rightarrow> npfloat \<Rightarrow> npfloat" where
  "py_min a b = (if np_less b a then b else a)"

definition py_max :: "npfloat \<Rightarrow> npfloat \<Rightarrow> npfloat" where
  "py_max a b = (if np_less a b then b else a)"

subsection \<open>ICC(2,1)\<close>

text \<open>
  \<^verbatim>\<open>calculate_icc\<close>, on numeric ratings. The last division is by an expression other than
  the one tested against zero, so it is a numpy division. With rational ratings
  \<^verbatim>\<open>pd.isna\<close> is false on every value and nothing raises.
\<close>

definition calculate_icc :: "rat option list \<Rightarrow> rat option list \<Rightarrow> npfloat option" where
  "calculate_icc values1 values2 =
     (let vp = valid_pairs values1 values2 in
      if length vp < 3 then None
      else
        let v1 = map fst vp; v2 = map snd vp;
            n = of_nat (length v1);
            mean_v1 = sum_list v1 / n;
            mean_v2 = sum_list v2 / n;
            grand_mean = (mean_v1 + mean_v2) / 2;
            row_means = map (\<lambda>(a, b). (a + b) / 2) (zip v1 v2);
            MS_rows = 2 * sum_list (map (\<lambda>m. (m - grand_mean)\<^sup>2) row_means) / (n - 1);
            MS_error = sum_list (map (\<lambda>((a, b), m). (a - m)\<^sup>2 + (b - m)\<^sup>2)
                                    (zip (zip v1 v2) row_means)) / n;
            MS_cols = n * ((mean_v1 - grand_mean)\<^sup>2 + (mean_v2 - grand_mean)\<^sup>2)
        in if MS_rows + MS_error = 0 then None
           else
             let icc = np_div (Fin (MS_rows - MS_error))
                              (Fin (MS_rows + MS_error + 2 * (MS_cols - MS_error) / n))
             in Some (py_max (Fin (- 1)) (py_min (Fin 1) icc)))"

text \<open>
  \<^verbatim>\<open>calculate_icc_multi(*value_lists)\<close>. The rows are read by index as in
  \<open>reliability_data\<close>; a row is kept when every rater has a value.
\<close>

definition calculate_icc_multi :: "rat option list list \<Rightarrow> npfloat option" where
  "calculate_icc_multi value_lists =
     (case reliability_data value_lists of
        None \<Rightarrow> None
      | Some rows \<Rightarrow>
          let valid_rows = map (map the) (filter (list_all (\<lambda>v. v \<noteq> None)) rows) in
          if length valid_rows < 3 then None
          else
            let n = of_nat (length valid_rows);
                k = of_nat (length value_lists);
                grand_mean = sum_list (concat valid_rows) / (n * k);
                row_means = map (\<lambda>row. sum_list row / k) valid_rows;
                col_means = map (\<lambda>j. sum_list (map (\<lambda>row. row ! j) valid_rows) / n)
                              [0..<length value_lists];
                SS_total = sum_list (map (\<lambda>x. (x - grand_mean)\<^sup>2) (concat valid_rows));
                SS_rows = k * sum_list (map (\<lambda>m. (m - grand_mean)\<^sup>2) row_means);
                SS_cols = n * sum_list (map (\<lambda>m. (m - grand_mean)\<^sup>2) col_means);
                SS_error = SS_total - SS_rows - SS_cols;
                MS_rows = SS_rows / (n - 1);
                MS_cols = (if 1 < k then SS_cols / (k - 1) else 0);
                MS_error = (if 0 < (n - 1) * (k - 1) then SS_error / ((n - 1) * (k - 1)) else 0);
                denom = MS_rows + (k - 1) * MS_error + k * (MS_cols - MS_error) / n
            in if denom = 0 then None
               else Some (py_max (Fin (- 1)) (py_min (Fin 1)
                            (np_div (Fin (MS_rows - MS_error)) (Fin denom)))))"

text \<open>A result within the interval from -1 to 1: a finite number in that range.\<close>

definition in_unit_range :: "npfloat \<Rightarrow> bool" where
  "in_unit_range x = (case x of Fin r \<Rightarrow> - 1 \<le> r \<and> r \<le> 1 | _ \<Rightarrow> False)"

subsection \<open>Fleiss' Kappa\<close>

text \<open>
  \<^verbatim>\<open>calculate_fleiss_kappa(ratings_matrix)\<close>: one row per subject, one rating per rater.
  \<^verbatim>\<open>valid_rows\<close> keeps the rows without a missing rating. \<open>counts\<close> is the subject by
  category matrix, filled from zeros by \<^verbatim>\<open>counts[i, cat_idx[val]] += 1\<close>. The divisions are
  numpy divisions, so a row length \<open>k\<close> below 2 gives \<open>inf\<close> or \<open>nan\<close> entries, not an
  exception.
\<close>

definition complete_rows :: "rating list list \<Rightarrow> int list list" where
  "complete_rows ratings_matrix =
     map (map the) (filter (list_all (\<lambda>v. v \<noteq> None)) ratings_matrix)"

definition cat_idx :: "int list \<Rightarrow> int \<Rightarrow> nat" where
  "cat_idx categories c = length (takeWhile (\<lambda>x. x \<noteq> c) categories)"

definition count_row :: "int list \<Rightarrow> int list \<Rightarrow> rat list" where
  "count_row categories row =
     foldl (\<lambda>cnt val. cnt[cat_idx categories val := cnt ! cat_idx categories val + 1])
       (replicate (length categories) 0) row"

definition p_j_entry :: "rat list list \<Rightarrow> nat \<Rightarrow> nat \<Rightarrow> nat \<Rightarrow> npfloat" where
  "p_j_entry counts n k j =
     np_div (Fin (sum_list (map (\<lambda>cnt. cnt ! j) counts))) (Fin (of_nat (n * k)))"

definition P_i_entry :: "nat \<Rightarrow> rat list \<Rightarrow> npfloat" where
  "P_i_entry k cnt =
     np_div (Fin (sum_list (map (\<lambda>c. c\<^sup>2) cnt) - of_nat k)) (Fin (of_nat (k * (k - 1))))"

definition calculate_fleiss_kappa :: "rating list list \<Rightarrow> npfloat option" where
  "calculate_fleiss_kappa ratings_matrix =
     (let valid_rows = complete_rows ratings_matrix in
      if length valid_rows < 2 then None
      else
        let n = length valid_rows;
            k = length (valid_rows ! 0);
            categories = sort (remdups (concat valid_rows));
            q = length categories
        in if q < 2 then None
           else
             let counts = map (count_row categories) valid_rows;
                 p_j = map (p_j_entry counts n k) [0..<q];
                 P_i = map (P_i_entry k) counts;
                 P_bar = np_mean P_i;
                 P_e = np_sum (map (\<lambda>p. np_mul p p) p_j)
             in if P_e = Fin 1 then None
                else Some (np_div (np_sub P_bar P_e) (np_sub (Fin 1) P_e)))"

text \<open>
  The quantities of the specification: the categories of the data set, the agreement
  \<open>P\<^sub>i\<close> of one subject by Fleiss' formula, its mean over the subjects, the pooled proportion
  of a category and the chance agreement.
\<close>

definition fleiss_categories :: "rating list list \<Rightarrow> int set" where
  "fleiss_categories ratings_matrix = set (concat (complete_rows ratings_matrix))"

definition fleiss_P_i :: "rating list list \<Rightarrow> nat \<Rightarrow> int list \<Rightarrow> rat" where
  "fleiss_P_i ratings_matrix k row =
     ((\<Sum>c \<in> fleiss_categories ratings_matrix. (of_nat (count_list row c))\<^sup>2) - of_nat k)
     / of_nat (k * (k - 1))"

definition fleiss_P_bar :: "rating list list \<Rightarrow> nat \<Rightarrow> rat" where
  "fleiss_P_bar ratings_matrix k =
     sum_list (map (fleiss_P_i ratings_matrix k) (complete_rows ratings_matrix))
     / of_nat (length (complete_rows ratings_matrix))"

definition fleiss_p :: "rating list list \<Rightarrow> nat \<Rightarrow> int \<Rightarrow> rat" where
  "fleiss_p ratings_matrix k c =
     of_nat (sum_list (map (\<lambda>row. count_list row c) (complete_rows ratings_matrix)))
     / of_nat (length (complete_rows ratings_matrix) * k)"

definition fleiss_P_e :: "rating list list \<Rightarrow> nat \<Rightarrow> rat" where
  "fleiss_P_e ratings_matrix k =
     (\<Sum>c \<in> fleiss_categories ratings_matrix. (fleiss_p ratings_matrix k c)\<^sup>2)"

subsection \<open>Raw values and their normalisation\<close>

text \<open>
  A raw value of a coding result: \<open>None\<close>, an integer (a bool is an integer), a float or
  a string. \<^verbatim>\<open>_normalize_value(v, var)\<close> returns \<open>int(float(v))\<close>; its \<open>except\<close> clause
  catches ValueError and TypeError only, so the OverflowError that \<open>int\<close> raises on an
  infinite float leaves the function. \<open>float\<close> applied to a string is Python's own parser:
  it is the parameter \<open>float_of_str\<close>, with \<open>None\<close> for its ValueError. Integers are
  taken to convert to floats exactly. \<open>strip\<close> removes the ASCII white space at both ends.
\<close>

datatype raw = PyNone | PyInt int | PyFloat npfloat | PyStr string


definition py_isspace :: "char \<Rightarrow> bool" where
  "py_isspace c = (of_char c \<in> {9, 10, 11, 12, 13, 28, 29, 30, 31, 32 :: nat})"

definition strip :: "string \<Rightarrow> string" where
  "strip s = rev (dropWhile py_isspace (rev (dropWhile py_isspace s)))"






subsection \<open>Per-variable results and the summary of \<open>compare_coders\<close>\<close>

text \<open>
  \<open>compare_coders\<close> computes one result per variable and then the dataset-level summary.
  The type of a variable stands for its membership in \<open>BINARY_VARIABLES\<close>,
  \<open>COUNT_VARIABLES\<close> or \<open>ORDINAL_VARIABLES\<close>. Cohen's Kappa is computed by scikit-learn's
  \<open>cohen_kappa_score\<close>, which is not part of the repository: it is a parameter, \<open>None\<close>
  when scikit-learn is not installed, and a score of \<open>None\<close> stands for an exception.
  A result without the key \<open>gwet_ac1\<close> or \<open>kripp_alpha\<close> is read with \<open>r.get\<close>, which
  gives \<open>None\<close>: the absent key and the value \<open>None\<close> are one state of the record.
\<close>

datatype var_type = Binary | Count | Ordinal

definition calculate_kappa ::
  "(int list \<Rightarrow> int list \<Rightarrow> npfloat option) option \<Rightarrow> rating list \<Rightarrow> rating list
   \<Rightarrow> npfloat option" where
  "calculate_kappa cohen_kappa_score values1 values2 =
     (case cohen_kappa_score of
        None \<Rightarrow> None
      | Some score \<Rightarrow>
          let vp = valid_pairs values1 values2 in
          if length vp < 2 then None else score (map fst vp) (map snd vp))"

record var_result =
  agreement :: "rat option"
  kappa :: "npfloat option"
  icc :: "npfloat option"
  gwet_ac1 :: "rat option"
  kripp_alpha :: "rat option"

definition variable_result ::
  "(int list \<Rightarrow> int list \<Rightarrow> npfloat option) option \<Rightarrow> var_type \<Rightarrow> rating list \<Rightarrow> rating list
   \<Rightarrow> var_result" where
  "variable_result cohen_kappa_score vtype v1 v2 =
     \<lparr>agreement = calculate_agreement v1 v2,
      kappa = (if vtype = Binary \<or> vtype = Ordinal
               then calculate_kappa cohen_kappa_score v1 v2 else None),
      icc = (if vtype = Count
             then calculate_icc (map (map_option of_int) v1) (map (map_option of_int) v2)
             else None),
      gwet_ac1 = (if vtype = Binary \<or> vtype = Ordinal then calculate_gwet_ac1 v1 v2 else None),
      kripp_alpha =
        (if vtype = Count then calculate_krippendorff_alpha [v1, v2] ''ratio''
         else calculate_krippendorff_alpha [v1, v2]
                (if vtype = Ordinal then ''ordinal'' else ''nominal''))\<rparr>"

text \<open>
  The dataset-level entries of the summary dict (without the names, the date, the platform
  ids and the list of per-variable results). \<open>np.isnan\<close> is false on every rational.
\<close>

record summary =
  overall_agreement :: "rat option"
  mean_kappa :: "npfloat option"
  n_kappa_valid :: nat
  n_kappa_perfect_agreement :: nat
  mean_gwet_ac1 :: "rat option"
  n_ac1_valid :: nat
  mean_kripp_alpha :: "rat option"
  n_kripp_valid :: nat
  mean_icc :: "npfloat option"

definition py_mean :: "rat list \<Rightarrow> rat" where
  "py_mean xs = sum_list xs / of_nat (length xs)"

definition compare_coders_summary :: "var_result list \<Rightarrow> summary" where
  "compare_coders_summary irr_results =
     (let agreements = map (\<lambda>r. the (agreement r)) (filter (\<lambda>r. agreement r \<noteq> None) irr_results);
          kappas = map (\<lambda>r. the (kappa r))
                     (filter (\<lambda>r. kappa r \<noteq> None \<and> the (kappa r) \<noteq> NaN) irr_results);
          iccs = map (\<lambda>r. the (icc r))
                   (filter (\<lambda>r. icc r \<noteq> None \<and> the (icc r) \<noteq> NaN) irr_results);
          ac1s = map (\<lambda>r. the (gwet_ac1 r)) (filter (\<lambda>r. gwet_ac1 r \<noteq> None) irr_results);
          kripp_alphas = map (\<lambda>r. the (kripp_alpha r))
                           (filter (\<lambda>r. kripp_alpha r \<noteq> None) irr_results);
          n_kappa_nan = length (filter (\<lambda>r. kappa r \<noteq> None \<and> the (kappa r) = NaN) irr_results)
      in \<lparr>overall_agreement = (if agreements \<noteq> [] then Some (py_mean agreements) else None),
          mean_kappa = (if kappas \<noteq> [] then Some (np_mean kappas) else None),
          n_kappa_valid = length kappas,
          n_kappa_perfect_agreement = n_kappa_nan,
          mean_gwet_ac1 = (if ac1s \<noteq> [] then Some (py_mean ac1s) else None),
          n_ac1_valid = length ac1s,
          mean_kripp_alpha = (if kripp_alphas \<noteq> [] then Some (py_mean kripp_alphas) else None),
          n_kripp_valid = length kripp_alphas,
          mean_icc = (if iccs \<noteq> [] then Some (np_mean iccs) else None)\<rparr>)"

text \<open>
  \<open>compare_coders\<close> from the normalised value lists of the variables on.
\<close>

definition compare_coders ::
  "(int list \<Rightarrow> int list \<Rightarrow> npfloat option) option
   \<Rightarrow> (var_type \<times> rating list \<times> rating list) list \<Rightarrow> summary" where
  "compare_coders cohen_kappa_score variable_data =
     compare_coders_summary
       (map (\<lambda>(vtype, v1, v2). variable_result cohen_kappa_score vtype v1 v2) variable_data)"

text \<open>
  A per-variable result without any value: every statistic is \<open>None\<close> or NaN. The values
  of a list of optional results.
\<close>

definition no_value :: "var_result \<Rightarrow> bool" where
  "no_value r =
     (agreement r = None \<and> (kappa r = None \<or> kappa r = Some NaN)
      \<and> (icc r = None \<or> icc r = Some NaN) \<and> gwet_ac1 r = None \<and> kripp_alpha r = None)"

fun values_of :: "'a option list \<Rightarrow> 'a list" where
  "values_of [] = []"
| "values_of (None # xs) = values_of xs"
| "values_of (Some x # xs) = x # values_of xs"

section \<open>Agreement counts of \<open>Scripts/human_irr_calculator.py\<close>\<close>

text \<open>
  \<^verbatim>\<open>calculate_agreement(val1, val2)\<close> of the human IRR calculator, on raw values.
  \<^verbatim>\<open>pd.isna\<close> holds of \<open>None\<close> and of a NaN float. Two floats are compared by \<open>==\<close>, which
  is false on NaN. When \<open>float\<close> raises on either value, the values are compared as
  lower-cased, stripped strings; \<open>str\<close> of a number is the parameter \<open>str_of_num\<close>, and
  \<open>lower\<close> maps the ASCII capitals.
\<close>

definition isna :: "raw \<Rightarrow> bool" where
  "isna v = (v = PyNone \<or> v = PyFloat NaN)"

fun py_float :: "(string \<Rightarrow> npfloat option) \<Rightarrow> raw \<Rightarrow> npfloat option" where
  "py_float float_of_str PyNone = None"
| "py_float float_of_str (PyInt i) = Some (Fin (of_int i))"
| "py_float float_of_str (PyFloat x) = Some x"
| "py_float float_of_str (PyStr s) = float_of_str s"

definition float_eq :: "npfloat \<Rightarrow> npfloat \<Rightarrow> bool" where
  "float_eq x y = (x \<noteq> NaN \<and> x = y)"

definition lower :: "string \<Rightarrow> string" where
  "lower s = map (\<lambda>c. let n = (of_char c :: nat) in
                        if 65 \<le> n \<and> n \<le> 90 then char_of (n + 32) else c) s"

fun py_str :: "(raw \<Rightarrow> string) \<Rightarrow> raw \<Rightarrow> string" where
  "py_str str_of_num (PyStr s) = s"
| "py_str str_of_num v = str_of_num v"

definition calculate_agreement_human ::
  "(string \<Rightarrow> npfloat option) \<Rightarrow> (raw \<Rightarrow> string) \<Rightarrow> raw \<Rightarrow> raw \<Rightarrow> bool" where
  "calculate_agreement_human float_of_str str_of_num val1 val2 =
     (if isna val1 \<and> isna val2 then True
      else if isna val1 \<or> isna val2 then False
      else case (py_float float_of_str val1, py_float float_of_str val2) of
             (Some v1, Some v2) \<Rightarrow> float_eq v1 v2
           | _ \<Rightarrow> strip (lower (py_str str_of_num val1))
                  = strip (lower (py_str str_of_num val2)))"

text \<open>
  The results of a coder are a dict from platform id to a dict from variable name to value:
  association lists here, whose keys are taken to be distinct. The common platforms are a
  Python set, whose iteration order is not specified; they are listed in the order of the
  first coder. The loops of \<^verbatim>\<open>calculate_pairwise_irr\<close> visit every platform of both coders
  and every variable of the first coder's codes that is in the second coder's codes.
\<close>

type_synonym codes = "(string \<times> raw) list"

type_synonym coder_results = "(string \<times> codes) list"

definition common_platforms :: "coder_results \<Rightarrow> coder_results \<Rightarrow> string list" where
  "common_platforms coder1_results coder2_results =
     filter (\<lambda>pid. pid \<in> set (map fst coder2_results)) (map fst coder1_results)"

definition pairwise_keys :: "coder_results \<Rightarrow> coder_results \<Rightarrow> (string \<times> string) list" where
  "pairwise_keys coder1_results coder2_results =
     concat (map (\<lambda>pid.
        let codes1 = the (map_of coder1_results pid);
            codes2 = the (map_of coder2_results pid)
        in map (Pair pid) (filter (\<lambda>var. var \<in> set (map fst codes2)) (map fst codes1)))
       (common_platforms coder1_results coder2_results))"

definition lookup :: "coder_results \<Rightarrow> string \<times> string \<Rightarrow> raw" where
  "lookup results key = the (map_of (the (map_of results (fst key))) (snd key))"

type_synonym comparison = "string \<times> string \<times> raw \<times> raw"

definition pairwise_step ::
  "(string \<Rightarrow> npfloat option) \<Rightarrow> (raw \<Rightarrow> string) \<Rightarrow> coder_results \<Rightarrow> coder_results
   \<Rightarrow> nat \<times> nat \<times> comparison list \<Rightarrow> string \<times> string \<Rightarrow> nat \<times> nat \<times> comparison list" where
  "pairwise_step float_of_str str_of_num coder1_results coder2_results acc key =
     (case acc of (agreements, disagreements, comparisons) \<Rightarrow>
        let val1 = lookup coder1_results key; val2 = lookup coder2_results key in
        if calculate_agreement_human float_of_str str_of_num val1 val2
        then (agreements + 1, disagreements, comparisons)
        else (agreements, disagreements + 1,
              comparisons @ [(fst key, snd key, val1, val2)]))"

record pairwise_irr =
  platforms :: nat
  agreements :: nat
  disagreements :: nat
  total :: nat
  agreement_rate :: rat
  disagreement_details :: "comparison list"

definition calculate_pairwise_irr ::
  "(string \<Rightarrow> npfloat option) \<Rightarrow> (raw \<Rightarrow> string) \<Rightarrow> coder_results \<Rightarrow> coder_results
   \<Rightarrow> pairwise_irr" where
  "calculate_pairwise_irr float_of_str str_of_num coder1_results coder2_results =
     (case foldl (pairwise_step float_of_str str_of_num coder1_results coder2_results)
             (0, 0, []) (pairwise_keys coder1_results coder2_results) of
        (agreements_n, disagreements_n, comparisons) \<Rightarrow>
          let total_n = agreements_n + disagreements_n in
          \<lparr>platforms = length (common_platforms coder1_results coder2_results),
           agreements = agreements_n,
           disagreements = disagreements_n,
           total = total_n,
           agreement_rate = (if 0 < total_n then of_nat agreements_n / of_nat total_n else 0),
           disagreement_details = comparisons\<rparr>)"

text \<open>Whether the two coders agree at a platform and variable.\<close>

definition agree_at ::
  "(string \<Rightarrow> npfloat option) \<Rightarrow> (raw \<Rightarrow> string) \<Rightarrow> coder_results \<Rightarrow> coder_results
   \<Rightarrow> string \<times> string \<Rightarrow> bool" where
  "agree_at float_of_str str_of_num coder1_results coder2_results key =
     calculate_agreement_human float_of_str str_of_num
       (lookup coder1_results key) (lookup coder2_results key)"









section \<open>Lemmas\<close>

subsection \<open>Valid pairs\<close>

lemma length_valid_pairs:
  "length (valid_pairs xs ys) = card (valid_idx xs ys)"
proof -
  have "length (valid_pairs xs ys)
      = card {i. i < length (zip xs ys) \<and> (\<lambda>(a, b). a \<noteq> None \<and> b \<noteq> None) (zip xs ys ! i)}"
    by (simp add: valid_pairs_def length_filter_conv_card)
  also have "{i. i < length (zip xs ys) \<and> (\<lambda>(a, b). a \<noteq> None \<and> b \<noteq> None) (zip xs ys ! i)}
      = valid_idx xs ys"
    by (fastforce simp: valid_idx_def)
  finally show ?thesis .
qed

lemma matches_valid_pairs:
  "matches (valid_pairs xs ys) = card (match_idx xs ys)"
proof -
  have "matches (valid_pairs xs ys)
      = length (filter (\<lambda>(a, b). a \<noteq> None \<and> b \<noteq> None \<and> a = b) (zip xs ys))"
    unfolding matches_def valid_pairs_def filter_map length_map filter_filter
    by (rule arg_cong [where f = length], rule filter_cong) auto
  also have "\<dots> = card {i. i < length (zip xs ys)
      \<and> (\<lambda>(a, b). a \<noteq> None \<and> b \<noteq> None \<and> a = b) (zip xs ys ! i)}"
    by (simp only: length_filter_conv_card)
  also have "{i. i < length (zip xs ys)
      \<and> (\<lambda>(a, b). a \<noteq> None \<and> b \<noteq> None \<and> a = b) (zip xs ys ! i)} = match_idx xs ys"
    by (fastforce simp: match_idx_def)
  finally show ?thesis .
qed

lemma length_filter_zip:
  "length (filter P (zip xs ys))
   = card {i. i < length xs \<and> i < length ys \<and> P (xs ! i, ys ! i)}"
proof -
  have "{i. i < length (zip xs ys) \<and> P (zip xs ys ! i)}
      = {i. i < length xs \<and> i < length ys \<and> P (xs ! i, ys ! i)}"
    by (rule Collect_cong) auto
  then show ?thesis by (simp only: length_filter_conv_card)
qed

lemma count_fst_valid_pairs:
  "length (filter (\<lambda>v. v = k) (map fst (valid_pairs xs ys)))
   = card {i \<in> valid_idx xs ys. xs ! i = Some k}"
proof -
  have "length (filter (\<lambda>v. v = k) (map fst (valid_pairs xs ys)))
      = length (filter (\<lambda>(a, b). a \<noteq> None \<and> b \<noteq> None \<and> a = Some k) (zip xs ys))"
    unfolding valid_pairs_def filter_map length_map filter_filter map_map
    by (rule arg_cong [where f = length], rule filter_cong) auto
  also have "\<dots> = card {i. i < length xs \<and> i < length ys
      \<and> (\<lambda>(a, b). a \<noteq> None \<and> b \<noteq> None \<and> a = Some k) (xs ! i, ys ! i)}"
    by (rule length_filter_zip)
  also have "{i. i < length xs \<and> i < length ys
      \<and> (\<lambda>(a, b). a \<noteq> None \<and> b \<noteq> None \<and> a = Some k) (xs ! i, ys ! i)}
      = {i \<in> valid_idx xs ys. xs ! i = Some k}"
    unfolding valid_idx_def by (rule Collect_cong) auto
  finally show ?thesis .
qed

lemma count_snd_valid_pairs:
  "length (filter (\<lambda>v. v = k) (map snd (valid_pairs xs ys)))
   = card {i \<in> valid_idx xs ys. ys ! i = Some k}"
proof -
  have "length (filter (\<lambda>v. v = k) (map snd (valid_pairs xs ys)))
      = length (filter (\<lambda>(a, b). a \<noteq> None \<and> b \<noteq> None \<and> b = Some k) (zip xs ys))"
    unfolding valid_pairs_def filter_map length_map filter_filter map_map
    by (rule arg_cong [where f = length], rule filter_cong) auto
  also have "\<dots> = card {i. i < length xs \<and> i < length ys
      \<and> (\<lambda>(a, b). a \<noteq> None \<and> b \<noteq> None \<and> b = Some k) (xs ! i, ys ! i)}"
    by (rule length_filter_zip)
  also have "{i. i < length xs \<and> i < length ys
      \<and> (\<lambda>(a, b). a \<noteq> None \<and> b \<noteq> None \<and> b = Some k) (xs ! i, ys ! i)}
      = {i \<in> valid_idx xs ys. ys ! i = Some k}"
    unfolding valid_idx_def by (rule Collect_cong) auto
  finally show ?thesis .
qed

lemma sum_list_sort_remdups:
  fixes f :: "int \<Rightarrow> rat"
  shows "sum_list (map f (sort (remdups xs))) = sum f (set xs)"
proof -
  have "distinct (sort (remdups xs))" by simp
  then have "sum_list (map f (sort (remdups xs))) = sum f (set (sort (remdups xs)))"
    by (rule sum_list_distinct_conv_sum_set)
  then show ?thesis by simp
qed

lemma length_sort_remdups: "length (sort (remdups (xs :: int list))) = card (set xs)"
  by (simp add: length_remdups_card_conv)

lemma calculate_gwet_ac1_char:
  "calculate_gwet_ac1 values1 values2 =
     (if length (valid_pairs values1 values2) < 2 then None
      else if card (ac1_categories values1 values2) < 2 then None
      else if ac1_pe values1 values2 = 1 then None
      else Some ((ac1_pa values1 values2 - ac1_pe values1 values2)
                 / (1 - ac1_pe values1 values2)))"
proof -
  let ?vp = "valid_pairs values1 values2"
  have cats: "set (map fst ?vp @ map snd ?vp) = ac1_categories values1 values2"
    by (simp add: ac1_categories_def)
  have pik: "of_nat (length (filter (\<lambda>v. v = k) (map fst ?vp @ map snd ?vp)))
             / (of_nat (2 * length (map fst ?vp)) :: rat) = ac1_pi values1 values2 k" for k
    by (simp only: ac1_pi_def filter_append length_append of_nat_add length_map
          count_fst_valid_pairs count_snd_valid_pairs length_valid_pairs)
  have q: "length (sort (remdups (map fst ?vp @ map snd ?vp))) = card (ac1_categories values1 values2)"
    unfolding length_sort_remdups cats ..
  have pe: "(1 / of_nat (card (ac1_categories values1 values2) - 1))
        * sum_list (map (\<lambda>pk. pk * (1 - pk))
            (map (\<lambda>cat. of_nat (length (filter (\<lambda>v. v = cat) (map fst ?vp @ map snd ?vp)))
                         / (of_nat (2 * length (map fst ?vp)) :: rat))
               (sort (remdups (map fst ?vp @ map snd ?vp)))))
        = ac1_pe values1 values2"
    unfolding pik map_map comp_def
    by (simp only: sum_list_sort_remdups cats ac1_pe_def)
  have pa: "of_nat (matches (zip (map fst ?vp) (map snd ?vp))) / (of_nat (length (map fst ?vp)) :: rat)
        = ac1_pa values1 values2"
    by (simp add: zip_map_fst_snd ac1_pa_def matches_valid_pairs length_valid_pairs)
  show ?thesis
    apply (simp only: calculate_gwet_ac1_def Let_def)
    apply (simp only: q pa)
    apply (simp only: pe)
    done
qed

subsection \<open>Symmetry in the two raters\<close>

lemma calculate_agreement_char:
  "calculate_agreement values1 values2 =
     (if card (valid_idx values1 values2) = 0 then None
      else Some (of_nat (card (match_idx values1 values2))
                 / of_nat (card (valid_idx values1 values2))))"
  by (simp add: calculate_agreement_def Let_def matches_valid_pairs flip: length_valid_pairs)

lemma valid_idx_commute: "valid_idx ys xs = valid_idx xs ys"
  by (auto simp: valid_idx_def)

lemma match_idx_commute: "match_idx ys xs = match_idx xs ys"
  by (auto simp: match_idx_def)

lemma valid_pairs_commute: "valid_pairs ys xs = map prod.swap (valid_pairs xs ys)"
proof -
  have "zip ys xs = map prod.swap (zip xs ys)"
    by (induction xs ys rule: list_induct2') auto
  then show ?thesis
    by (simp add: valid_pairs_def filter_map comp_def case_prod_unfold conj_commute)
qed

lemma ac1_categories_commute: "ac1_categories ys xs = ac1_categories xs ys"
  by (auto simp: ac1_categories_def valid_pairs_commute [of ys xs] image_image)

lemma ac1_pi_commute: "ac1_pi ys xs k = ac1_pi xs ys k"
  by (simp add: ac1_pi_def valid_idx_commute [of ys xs] add.commute)

lemma ac1_pe_commute: "ac1_pe ys xs = ac1_pe xs ys"
  by (simp add: ac1_pe_def ac1_categories_commute [of ys xs] ac1_pi_commute [of ys xs])

lemma ac1_pa_commute: "ac1_pa ys xs = ac1_pa xs ys"
  by (simp add: ac1_pa_def valid_idx_commute [of ys xs] match_idx_commute [of ys xs])

subsection \<open>Krippendorff's Alpha\<close>

lemma index_pairs_Cons: "index_pairs (x # xs) = map (Pair x) xs @ index_pairs xs"
proof -
  have a: "[0..<length (x # xs)] = 0 # map Suc [0..<length xs]"
    by (simp add: upt_conv_Cons map_Suc_upt del: upt_Suc)
  have b: "[Suc i..<length (x # xs)] = map Suc [i..<length xs]" for i
    by (simp add: map_Suc_upt del: upt_Suc)
  have c: "map (\<lambda>j. (x, (x # xs) ! j)) (map Suc [0..<length xs]) = map (Pair x) xs"
    by (simp add: comp_def map_nth flip: map_map [of "Pair x" "(!) xs", unfolded comp_def])
  show ?thesis
    unfolding index_pairs_def a Suc_eq_plus1 [symmetric] b
    using c by (simp add: comp_def flip: Suc_eq_plus1 del: upt_Suc)
qed

lemma index_pairs_eq_pairs: "index_pairs xs = pairs xs"
  by (induction xs) (simp_all add: index_pairs_Cons, simp add: index_pairs_def)

lemma reliability_data_rectangle:
  assumes "value_lists \<noteq> []" and "\<forall>vl \<in> set value_lists. length vl = n"
  shows "reliability_data value_lists = Some (transpose value_lists)"
proof -
  obtain vl0 rest where vls: "value_lists = vl0 # rest"
    using assms(1) by (cases value_lists) auto
  have n: "length vl0 = n"
    using assms(2) vls by simp
  have no_short: "\<not> list_ex (\<lambda>vl. length vl < n) value_lists"
    using assms(2) by (simp add: list_ex_iff)
  have "transpose value_lists
      = map (\<lambda>i. map (\<lambda>j. value_lists ! j ! i) [0..<length value_lists]) [0..<n]"
    by (rule transpose_rectangle) (use assms in auto)
  also have "\<dots> = map (\<lambda>i. map (\<lambda>vl. vl ! i) value_lists) [0..<n]"
  proof -
    have "map (\<lambda>j. value_lists ! j ! i) [0..<length value_lists] = map (\<lambda>vl. vl ! i) value_lists" for i
      by (rule nth_equalityI) auto
    then show ?thesis by simp
  qed
  finally have "transpose value_lists = map (\<lambda>i. map (\<lambda>vl. vl ! i) value_lists) [0..<n]" .
  then show ?thesis
    using no_short n by (simp add: reliability_data_def vls)
qed

lemma delta_same: "delta level vs a a = 0"
  by (simp add: delta_def)

lemma set_pairs_subset: "(a, b) \<in> set (pairs xs) \<Longrightarrow> a \<in> set xs \<and> b \<in> set xs"
  by (induction xs) auto

lemma pairs_not_Nil: "2 \<le> length xs \<Longrightarrow> pairs xs \<noteq> []"
  by (cases xs) auto

lemma one_value:
  assumes "length (remdups xs) < 2" and "a \<in> set xs" and "b \<in> set xs"
  shows "a = b"
proof -
  have "card (set xs) \<le> 1"
    using assms(1) by (simp add: length_remdups_card_conv)
  then have "\<forall>a \<in> set xs. \<forall>b \<in> set xs. a = b"
    by (simp add: card_le_Suc0_iff_eq)
  then show ?thesis
    using assms(2,3) by blast
qed

lemma sum_delta_pairs_same:
  assumes "\<forall>a \<in> set xs. \<forall>b \<in> set xs. a = b"
  shows "sum_list (map (\<lambda>(a, b). delta level vs a b) (pairs xs)) = 0"
  using assms
proof (induction xs)
  case Nil
  show ?case by simp
next
  case (Cons x xs)
  have tl: "\<forall>a \<in> set xs. \<forall>b \<in> set xs. a = b"
    using Cons.prems by simp
  have hd: "\<forall>y \<in> set xs. y = x"
    using Cons.prems by simp
  have "map (\<lambda>y. delta level vs x y) xs = map (\<lambda>y. 0) xs"
  proof (rule map_cong [OF refl])
    fix y assume "y \<in> set xs"
    then have "y = x" using hd by simp
    then show "delta level vs x y = 0" by (simp only: delta_same)
  qed
  then have "sum_list (map (\<lambda>y. delta level vs x y) xs) = 0"
    by (simp only: sum_list_0)
  then show ?case
    using Cons.IH [OF tl] by (simp add: comp_def)
qed

lemma mean_distance_one_value:
  assumes "length (remdups xs) < 2"
  shows "mean_distance (delta level vs) (pairs xs) = 0"
proof -
  have "\<forall>a \<in> set xs. \<forall>b \<in> set xs. a = b"
    using one_value [OF assms] by (intro ballI)
  then have "sum_list (map (\<lambda>(a, b). delta level vs a b) (pairs xs)) = 0"
    by (rule sum_delta_pairs_same)
  then show ?thesis
    by (simp only: mean_distance_def div_0)
qed

lemma subject_pairs_not_Nil:
  assumes "2 \<le> length rows" and "\<forall>row \<in> set rows. 2 \<le> length (non_none row)"
  shows "concat (map (\<lambda>row. pairs (non_none row)) rows) \<noteq> []"
proof -
  obtain r rest where "rows = r # rest"
    using assms(1) by (cases rows) auto
  then show ?thesis
    using assms(2) pairs_not_Nil [of "non_none r"] by simp
qed

lemma values_length:
  assumes "2 \<le> length rows" and "\<forall>row \<in> set rows. 2 \<le> length (non_none row)"
  shows "2 \<le> length (concat (map non_none rows))"
proof -
  obtain r rest where "rows = r # rest"
    using assms(1) by (cases rows) auto
  then show ?thesis
    using assms(2) by simp
qed

lemma alpha_of_rows:
  assumes "reliability_data value_lists = Some (transpose value_lists)"
  shows "calculate_krippendorff_alpha value_lists level =
     (if length (kripp_subjects value_lists) < 2 \<or> kripp_De value_lists level = 0 then None
      else Some (1 - kripp_Do value_lists level / kripp_De value_lists level))"
proof -
  let ?q = "kripp_subjects value_lists"
  let ?vals = "kripp_values value_lists"
  have rows: "\<forall>row \<in> set ?q. 2 \<le> length (non_none row)"
    by (simp add: kripp_subjects_def)
  show ?thesis
  proof (cases "length ?q < 2")
    case True
    then show ?thesis
      using assms by (simp add: calculate_krippendorff_alpha_def kripp_subjects_def)
  next
    case many: False
    show ?thesis
    proof (cases "length (remdups ?vals) < 2")
      case True
      then have "kripp_De value_lists level = 0"
        by (simp add: kripp_De_def mean_distance_one_value)
      then show ?thesis
        using assms many True
        by (simp add: calculate_krippendorff_alpha_def kripp_subjects_def kripp_values_def)
    next
      case False
      have a: "concat (map (\<lambda>row. pairs (non_none row)) ?q) \<noteq> []"
        using many rows by (intro subject_pairs_not_Nil) auto
      have b: "pairs ?vals \<noteq> []"
        unfolding kripp_values_def
        using many rows by (intro pairs_not_Nil values_length) auto
      have tp: "length (concat (map (\<lambda>row. index_pairs (non_none row)) ?q)) \<noteq> 0"
        using a by (simp only: index_pairs_eq_pairs length_0_conv not_False_eq_True)
      have te: "length (index_pairs ?vals) \<noteq> 0"
        using b by (simp only: index_pairs_eq_pairs length_0_conv not_False_eq_True)
      have "calculate_krippendorff_alpha value_lists level =
         (if kripp_De value_lists level = 0 then None
          else Some (1 - kripp_Do value_lists level / kripp_De value_lists level))"
        apply (simp only: calculate_krippendorff_alpha_def assms option.case Let_def)
        apply (simp only: kripp_subjects_def [symmetric])
        apply (simp only: kripp_values_def [symmetric])
        apply (simp only: many False tp te if_False)
        apply (simp only: index_pairs_eq_pairs kripp_Do_def kripp_De_def mean_distance_def)
        done
      then show ?thesis
        using many by simp
    qed
  qed
qed

lemma alpha_no_raters:
  "calculate_krippendorff_alpha [] level =
     (if length (kripp_subjects []) < 2 \<or> kripp_De [] level = 0 then None
      else Some (1 - kripp_Do [] level / kripp_De [] level))"
  by (simp add: calculate_krippendorff_alpha_def reliability_data_def kripp_subjects_def)

subsection \<open>ICC\<close>

lemma py_clamp_range: "in_unit_range (py_max (Fin (- 1)) (py_min (Fin 1) x))"
  by (cases x) (auto simp: in_unit_range_def py_max_def py_min_def)

lemma calculate_icc_few: "length (valid_pairs values1 values2) < 3 \<Longrightarrow> calculate_icc values1 values2 = None"
  by (simp add: calculate_icc_def)

lemma calculate_icc_range: "calculate_icc values1 values2 = Some x \<Longrightarrow> in_unit_range x"
  by (auto simp: calculate_icc_def Let_def py_clamp_range split: if_splits)

lemma calculate_icc_multi_range: "calculate_icc_multi value_lists = Some y \<Longrightarrow> in_unit_range y"
  by (auto simp: calculate_icc_multi_def Let_def py_clamp_range split: option.splits if_splits)

subsection \<open>Fleiss' Kappa\<close>

lemma cat_idx_nth: "c \<in> set cs \<Longrightarrow> cat_idx cs c < length cs \<and> cs ! cat_idx cs c = c"
  by (induction cs) (auto simp: cat_idx_def)

lemma cat_idx_unique:
  assumes "distinct cs" and "j < length cs" and "cs ! j = c"
  shows "cat_idx cs c = j"
proof -
  have "c \<in> set cs" using assms(2,3) by auto
  then have "cat_idx cs c < length cs" "cs ! cat_idx cs c = cs ! j"
    using cat_idx_nth assms(3) by auto
  then show ?thesis
    using assms(1,2) by (simp add: nth_eq_iff_index_eq)
qed

lemma count_fold:
  assumes "distinct cs" and "set row \<subseteq> set cs" and "length acc = length cs"
  shows "foldl (\<lambda>cnt val. cnt[cat_idx cs val := cnt ! cat_idx cs val + 1]) acc row
       = map (\<lambda>j. acc ! j + of_nat (count_list row (cs ! j))) [0..<length cs]"
  using assms(2,3)
proof (induction row arbitrary: acc)
  case Nil
  have "map ((!) acc) [0..<length acc] = acc" by (rule map_nth)
  then show ?case using Nil.prems(2) by simp
next
  case (Cons v row)
  let ?i = "cat_idx cs v"
  let ?acc = "acc[?i := acc ! ?i + 1]"
  have v: "v \<in> set cs" using Cons.prems(1) by simp
  then have i: "?i < length cs" "cs ! ?i = v"
    using cat_idx_nth by auto
  have len: "length ?acc = length cs" using Cons.prems(2) by simp
  have "foldl (\<lambda>cnt val. cnt[cat_idx cs val := cnt ! cat_idx cs val + 1]) acc (v # row)
      = map (\<lambda>j. ?acc ! j + of_nat (count_list row (cs ! j))) [0..<length cs]"
    using Cons.IH [OF _ len] Cons.prems(1) by simp
  also have "\<dots> = map (\<lambda>j. acc ! j + of_nat (count_list (v # row) (cs ! j))) [0..<length cs]"
  proof (rule map_cong [OF refl])
    fix j assume "j \<in> set [0..<length cs]"
    then have j: "j < length cs" by simp
    show "?acc ! j + of_nat (count_list row (cs ! j))
        = acc ! j + of_nat (count_list (v # row) (cs ! j))"
    proof (cases "j = ?i")
      case True
      then show ?thesis using i Cons.prems(2) by (simp add: algebra_simps)
    next
      case False
      then have "cs ! j \<noteq> v"
        using cat_idx_unique [OF assms(1) j, of v] by auto
      then show ?thesis using False by simp
    qed
  qed
  finally show ?case .
qed

lemma count_row_eq:
  assumes "distinct cs" and "set row \<subseteq> set cs"
  shows "count_row cs row = map (\<lambda>c. of_nat (count_list row c)) cs"
proof -
  have "count_row cs row
      = map (\<lambda>j. replicate (length cs) 0 ! j + of_nat (count_list row (cs ! j))) [0..<length cs]"
    unfolding count_row_def by (rule count_fold [OF assms]) simp
  also have "\<dots> = map (\<lambda>j. of_nat (count_list row (cs ! j))) [0..<length cs]"
    by (rule map_cong [OF refl]) simp
  also have "\<dots> = map (\<lambda>c. of_nat (count_list row c)) (map ((!) cs) [0..<length cs])"
    by (simp only: map_map comp_def)
  finally show ?thesis by (simp only: map_nth)
qed

lemma np_sum_Fin: "np_sum (map Fin xs) = Fin (sum_list xs)"
proof -
  have "foldl np_add (Fin a) (map Fin xs) = Fin (a + sum_list xs)" for a
    by (induction xs arbitrary: a) (simp_all add: add.assoc)
  from this [of 0] show ?thesis by (simp add: np_sum_def)
qed

lemma complete_rows_categories:
  assumes "row \<in> set (complete_rows m)"
  shows "set row \<subseteq> set (sort (remdups (concat (complete_rows m))))"
  using assms by auto

lemma fleiss_counts:
  assumes "row \<in> set (complete_rows m)"
  shows "count_row (sort (remdups (concat (complete_rows m)))) row
       = map (\<lambda>c. of_nat (count_list row c)) (sort (remdups (concat (complete_rows m))))"
  by (rule count_row_eq [OF _ complete_rows_categories [OF assms]]) simp

lemma sum_list_map_of_nat:
  "sum_list (map (\<lambda>x. of_nat (g x)) xs) = (of_nat (sum_list (map g xs)) :: rat)"
  by (induction xs) simp_all

lemma fleiss_P_i_code:
  assumes "row \<in> set (complete_rows m)" and "2 \<le> k"
  shows "P_i_entry k (count_row (sort (remdups (concat (complete_rows m)))) row)
       = Fin (fleiss_P_i m k row)"
proof -
  have nz: "(of_nat (k * (k - 1)) :: rat) \<noteq> 0"
    using assms(2) by simp
  have "sum_list (map (\<lambda>c. c\<^sup>2) (count_row (sort (remdups (concat (complete_rows m)))) row))
      = (\<Sum>c \<in> fleiss_categories m. (of_nat (count_list row c) :: rat)\<^sup>2)"
    by (simp only: fleiss_counts [OF assms(1)] map_map comp_def sum_list_sort_remdups
        fleiss_categories_def)
  then show ?thesis
    using nz by (simp only: P_i_entry_def fleiss_P_i_def np_div.simps if_False)
qed

lemma fleiss_P_bar_code:
  assumes "2 \<le> k" and "complete_rows m \<noteq> []"
  shows "np_mean (map (P_i_entry k)
                  (map (count_row (sort (remdups (concat (complete_rows m))))) (complete_rows m)))
       = Fin (fleiss_P_bar m k)"
proof -
  have "map (P_i_entry k)
          (map (count_row (sort (remdups (concat (complete_rows m))))) (complete_rows m))
      = map Fin (map (fleiss_P_i m k) (complete_rows m))"
    unfolding map_map comp_def
    by (rule map_cong [OF refl]) (simp only: fleiss_P_i_code [OF _ assms(1)])
  moreover have "(of_nat (length (complete_rows m)) :: rat) \<noteq> 0"
    using assms(2) by simp
  ultimately show ?thesis
    by (simp only: np_mean_def np_sum_Fin length_map np_div.simps if_False fleiss_P_bar_def)
qed

lemma fleiss_p_code:
  assumes "j < length (sort (remdups (concat (complete_rows m))))"
    and "1 \<le> k" and "complete_rows m \<noteq> []"
  shows "p_j_entry (map (count_row (sort (remdups (concat (complete_rows m))))) (complete_rows m))
           (length (complete_rows m)) k j
       = Fin (fleiss_p m k (sort (remdups (concat (complete_rows m))) ! j))"
proof -
  let ?cs = "sort (remdups (concat (complete_rows m)))"
  have nz: "(of_nat (length (complete_rows m) * k) :: rat) \<noteq> 0"
    using assms(2,3) by simp
  have "map (\<lambda>cnt. cnt ! j) (map (count_row ?cs) (complete_rows m))
      = map (\<lambda>row. of_nat (count_list row (?cs ! j))) (complete_rows m)"
    unfolding map_map comp_def
  proof (rule map_cong [OF refl])
    fix row assume "row \<in> set (complete_rows m)"
    then show "count_row ?cs row ! j = of_nat (count_list row (?cs ! j))"
      using assms(1) by (simp only: fleiss_counts nth_map)
  qed
  then have "sum_list (map (\<lambda>cnt. cnt ! j) (map (count_row ?cs) (complete_rows m)))
      = (of_nat (sum_list (map (\<lambda>row. count_list row (?cs ! j)) (complete_rows m))) :: rat)"
    by (simp only: sum_list_map_of_nat)
  then show ?thesis
    using nz by (simp only: p_j_entry_def fleiss_p_def np_div.simps if_False)
qed

lemma fleiss_P_e_code:
  assumes "1 \<le> k" and "complete_rows m \<noteq> []"
  shows "np_sum (map (\<lambda>p. np_mul p p)
           (map (p_j_entry (map (count_row (sort (remdups (concat (complete_rows m)))))
                              (complete_rows m)) (length (complete_rows m)) k)
              [0..<length (sort (remdups (concat (complete_rows m))))]))
       = Fin (fleiss_P_e m k)"
proof -
  let ?cs = "sort (remdups (concat (complete_rows m)))"
  let ?p = "p_j_entry (map (count_row ?cs) (complete_rows m)) (length (complete_rows m)) k"
  have "map (\<lambda>p. np_mul p p) (map ?p [0..<length ?cs])
      = map Fin (map (\<lambda>c. (fleiss_p m k c)\<^sup>2) (map ((!) ?cs) [0..<length ?cs]))"
    unfolding map_map comp_def
  proof (rule map_cong [OF refl])
    fix j assume "j \<in> set [0..<length ?cs]"
    then have "j < length ?cs" by simp
    then show "np_mul (?p j) (?p j) = Fin ((fleiss_p m k (?cs ! j))\<^sup>2)"
      by (simp only: fleiss_p_code [OF _ assms] np_mul.simps power2_eq_square)
  qed
  then show ?thesis
    by (simp only: map_nth np_sum_Fin sum_list_sort_remdups fleiss_P_e_def fleiss_categories_def)
qed

lemma calculate_fleiss_kappa_char:
  assumes "2 \<le> k" and "\<forall>row \<in> set ratings_matrix. length row = k"
  shows "calculate_fleiss_kappa ratings_matrix =
     (if length (complete_rows ratings_matrix) < 2 then None
      else if card (fleiss_categories ratings_matrix) < 2 then None
      else if fleiss_P_e ratings_matrix k = 1 then None
      else Some (Fin ((fleiss_P_bar ratings_matrix k - fleiss_P_e ratings_matrix k)
                      / (1 - fleiss_P_e ratings_matrix k))))"
proof (cases "length (complete_rows ratings_matrix) < 2")
  case True
  then show ?thesis by (simp add: calculate_fleiss_kappa_def)
next
  case False
  let ?rows = "complete_rows ratings_matrix"
  have ne: "?rows \<noteq> []" using False by auto
  then have "?rows ! 0 \<in> set ?rows" by simp
  then have k: "length (?rows ! 0) = k"
    using assms(2) by (auto simp: complete_rows_def)
  have q: "length (sort (remdups (concat ?rows))) = card (fleiss_categories ratings_matrix)"
    by (simp only: length_sort_remdups fleiss_categories_def)
  have k1: "1 \<le> k" using assms(1) by simp
  have "calculate_fleiss_kappa ratings_matrix =
     (if card (fleiss_categories ratings_matrix) < 2 then None
      else if Fin (fleiss_P_e ratings_matrix k) = Fin 1 then None
      else Some (np_div (np_sub (Fin (fleiss_P_bar ratings_matrix k)) (Fin (fleiss_P_e ratings_matrix k)))
                        (np_sub (Fin 1) (Fin (fleiss_P_e ratings_matrix k)))))"
    apply (simp only: calculate_fleiss_kappa_def Let_def False if_False k)
    apply (simp only: fleiss_P_bar_code [OF assms(1) ne] fleiss_P_e_code [OF k1 ne])
    apply (simp only: q)
    done
  then show ?thesis
    using False by (simp add: np_sub_def)
qed

lemma complete_rows_filter:
  "complete_rows (filter (list_all (\<lambda>v. v \<noteq> None)) m) = complete_rows m"
  by (simp add: complete_rows_def)

subsection \<open>Normalisation\<close>




subsection \<open>Human IRR calculator\<close>

lemma pairwise_loop:
  "foldl (pairwise_step f g c1 c2) (a, d, cs) keys
   = (a + length (filter (agree_at f g c1 c2) keys),
      d + length (filter (\<lambda>key. \<not> agree_at f g c1 c2 key) keys),
      cs @ map (\<lambda>key. (fst key, snd key, lookup c1 key, lookup c2 key))
             (filter (\<lambda>key. \<not> agree_at f g c1 c2 key) keys))"
  by (induction keys arbitrary: a d cs) (simp_all add: pairwise_step_def agree_at_def Let_def)






lemma pairwise_result:
  "calculate_pairwise_irr f g c1 c2 =
     \<lparr>platforms = length (common_platforms c1 c2),
      agreements = length (filter (agree_at f g c1 c2) (pairwise_keys c1 c2)),
      disagreements = length (filter (\<lambda>key. \<not> agree_at f g c1 c2 key) (pairwise_keys c1 c2)),
      total = length (pairwise_keys c1 c2),
      agreement_rate =
        (if pairwise_keys c1 c2 = [] then 0
         else of_nat (length (filter (agree_at f g c1 c2) (pairwise_keys c1 c2)))
              / of_nat (length (pairwise_keys c1 c2))),
      disagreement_details =
        map (\<lambda>key. (fst key, snd key, lookup c1 key, lookup c2 key))
          (filter (\<lambda>key. \<not> agree_at f g c1 c2 key) (pairwise_keys c1 c2))\<rparr>"
proof -
  have "length (filter (agree_at f g c1 c2) (pairwise_keys c1 c2))
      + length (filter (\<lambda>key. \<not> agree_at f g c1 c2 key) (pairwise_keys c1 c2))
      = length (pairwise_keys c1 c2)"
    by (rule sum_length_filter_compl)
  then show ?thesis
    by (simp add: calculate_pairwise_irr_def pairwise_loop Let_def)
qed


subsection \<open>Summary of compare_coders\<close>

lemma values_of_append: "values_of (xs @ ys) = values_of xs @ values_of ys"
  by (induction xs rule: values_of.induct) simp_all

lemma values_filter:
  "map (\<lambda>r. the (f r)) (filter (\<lambda>r. f r \<noteq> None) rs) = values_of (map f rs)"
proof (induction rs)
  case Nil
  show ?case by simp
next
  case (Cons r rs)
  then show ?case by (cases "f r") simp_all
qed

lemma values_filter_not_nan:
  "map (\<lambda>r. the (f r)) (filter (\<lambda>r. f r \<noteq> None \<and> the (f r) \<noteq> NaN) rs)
   = filter (\<lambda>x. x \<noteq> NaN) (values_of (map f rs))"
proof (induction rs)
  case Nil
  show ?case by simp
next
  case (Cons r rs)
  then show ?case by (cases "f r") simp_all
qed

lemma count_filter_nan:
  "length (filter (\<lambda>r. f r \<noteq> None \<and> the (f r) = NaN) rs)
   = length (filter (\<lambda>x. x = NaN) (values_of (map f rs)))"
proof (induction rs)
  case Nil
  show ?case by simp
next
  case (Cons r rs)
  then show ?case by (cases "f r") simp_all
qed

lemma np_mean_Fin:
  "np_mean (map Fin ys) = (if ys = [] then NaN else Fin (sum_list ys / of_nat (length ys)))"
  by (simp add: np_mean_def np_sum_Fin np_signed_inf_def)

lemma compare_coders_summary_char:
  "compare_coders_summary rs =
     \<lparr>overall_agreement =
        (if values_of (map agreement rs) = [] then None
         else Some (py_mean (values_of (map agreement rs)))),
      mean_kappa =
        (if filter (\<lambda>x. x \<noteq> NaN) (values_of (map kappa rs)) = [] then None
         else Some (np_mean (filter (\<lambda>x. x \<noteq> NaN) (values_of (map kappa rs))))),
      n_kappa_valid = length (filter (\<lambda>x. x \<noteq> NaN) (values_of (map kappa rs))),
      n_kappa_perfect_agreement = length (filter (\<lambda>x. x = NaN) (values_of (map kappa rs))),
      mean_gwet_ac1 =
        (if values_of (map gwet_ac1 rs) = [] then None
         else Some (py_mean (values_of (map gwet_ac1 rs)))),
      n_ac1_valid = length (values_of (map gwet_ac1 rs)),
      mean_kripp_alpha =
        (if values_of (map kripp_alpha rs) = [] then None
         else Some (py_mean (values_of (map kripp_alpha rs)))),
      n_kripp_valid = length (values_of (map kripp_alpha rs)),
      mean_icc =
        (if filter (\<lambda>x. x \<noteq> NaN) (values_of (map icc rs)) = [] then None
         else Some (np_mean (filter (\<lambda>x. x \<noteq> NaN) (values_of (map icc rs)))))\<rparr>"
  unfolding compare_coders_summary_def Let_def
  by (simp only: values_filter values_filter_not_nan count_filter_nan) simp

lemma values_of_insert_None:
  assumes "f r = None"
  shows "values_of (map f (rs1 @ r # rs2)) = values_of (map f (rs1 @ rs2))"
  using assms by (simp add: values_of_append)

lemma values_of_insert_NaN:
  assumes "f r = None \<or> f r = Some NaN"
  shows "filter (\<lambda>x. x \<noteq> NaN) (values_of (map f (rs1 @ r # rs2)))
       = filter (\<lambda>x. x \<noteq> NaN) (values_of (map f (rs1 @ rs2)))"
  using assms by (auto simp: values_of_append)

lemma summary_insert_no_value:
  assumes "no_value r"
  shows "compare_coders_summary (rs1 @ r # rs2)
       = (compare_coders_summary (rs1 @ rs2))
           \<lparr>n_kappa_perfect_agreement :=
              n_kappa_perfect_agreement (compare_coders_summary (rs1 @ r # rs2))\<rparr>"
proof -
  have a: "agreement r = None" "gwet_ac1 r = None" "kripp_alpha r = None"
    using assms by (simp_all add: no_value_def)
  have b: "kappa r = None \<or> kappa r = Some NaN" "icc r = None \<or> icc r = Some NaN"
    using assms by (simp_all add: no_value_def)
  show ?thesis
    unfolding compare_coders_summary_char
    by (simp only: values_of_insert_None [of agreement, OF a(1)]
        values_of_insert_None [of gwet_ac1, OF a(2)]
        values_of_insert_None [of kripp_alpha, OF a(3)]
        values_of_insert_NaN [of kappa, OF b(1)] values_of_insert_NaN [of icc, OF b(2)])
       simp
qed

section \<open>Claims\<close>

text \<open>
  Claim C3. Percent agreement is the number of subjects rated by both raters on which the
  two ratings are equal, divided by the number of subjects rated by both; it is \<open>None\<close>
  (Missing) when no subject is rated by both. For \<open>[1,1,0,0,1]\<close> against
  \<open>[1,0,0,0,1]\<close> it is 4/5 = 0.8. (Lists of unequal length are cut to the shorter one by
  \<open>zip\<close>, so the statement needs no assumption on the lengths.)
\<close>

theorem calculate_agreement_spec:
  "calculate_agreement values1 values2 =
     (if card (valid_idx values1 values2) = 0 then None
      else Some (of_nat (card (match_idx values1 values2))
                 / of_nat (card (valid_idx values1 values2))))
   \<and> calculate_agreement [Some (1::int), Some 1, Some 0, Some 0, Some 1]
                          [Some 1, Some 0, Some 0, Some 0, Some 1] = Some (4 / 5)"
proof
  show "calculate_agreement values1 values2 =
     (if card (valid_idx values1 values2) = 0 then None
      else Some (of_nat (card (match_idx values1 values2))
                 / of_nat (card (valid_idx values1 values2))))"
    by (simp add: calculate_agreement_def Let_def matches_valid_pairs flip: length_valid_pairs)
  show "calculate_agreement [Some (1::int), Some 1, Some 0, Some 0, Some 1]
                          [Some 1, Some 0, Some 0, Some 0, Some 1] = Some (4 / 5)"
    by (simp add: calculate_agreement_def valid_pairs_def matches_def)
qed

text \<open>
  Claim C1, as amended. With at least 2 valid pairs, \<open>calculate_gwet_ac1\<close> returns
  \<open>(pa - pe) / (1 - pe)\<close>, where \<open>pa\<close> is the fraction of valid pairs with equal values
  and \<open>pe = (1/(q-1)) \<Sum> \<pi>\<^sub>k (1 - \<pi>\<^sub>k)\<close> over the \<open>q\<close> categories pooled from both
  raters' valid values. With \<open>q < 2\<close> or \<open>pe = 1\<close> it returns \<open>None\<close>, which is also what it
  returns for fewer than 2 valid pairs: the function has one value for both situations.
\<close>

theorem gwet_ac1_formula:
  "calculate_gwet_ac1 values1 values2 =
     (if card (valid_idx values1 values2) < 2 then None
      else if card (ac1_categories values1 values2) < 2 \<or> ac1_pe values1 values2 = 1 then None
      else Some ((ac1_pa values1 values2 - ac1_pe values1 values2)
                 / (1 - ac1_pe values1 values2)))"
proof (cases "card (valid_idx values1 values2) < 2")
  case True
  then have "length (valid_pairs values1 values2) < 2"
    by (simp add: length_valid_pairs)
  then show ?thesis
    using True by (simp add: calculate_gwet_ac1_char)
next
  case False
  then have "\<not> length (valid_pairs values1 values2) < 2"
    by (simp add: length_valid_pairs)
  then show ?thesis
    using False by (simp add: calculate_gwet_ac1_char)
qed

text \<open>
  Claim C1 as stated fails: the degenerate result is not distinct from the result for too few
  valid pairs. Two raters who both give 1 to two subjects (two valid pairs, one category)
  get the same result as two raters with a single valid pair.
\<close>

theorem gwet_ac1_undefined_is_missing:
  "2 \<le> card (valid_idx [Some (1::int), Some 1] [Some 1, Some 1])
   \<and> card (ac1_categories [Some (1::int), Some 1] [Some 1, Some 1]) < 2
   \<and> card (valid_idx [Some (1::int)] [Some 1]) < 2
   \<and> calculate_gwet_ac1 [Some (1::int), Some 1] [Some 1, Some 1] = calculate_gwet_ac1 [Some (1::int)] [Some 1]"
proof -
  have a: "length (valid_pairs [Some (1::int), Some 1] [Some 1, Some 1]) = 2"
    by (simp add: valid_pairs_def)
  have b: "length (valid_pairs [Some (1::int)] [Some 1]) = 1"
    by (simp add: valid_pairs_def)
  have c: "ac1_categories [Some (1::int), Some 1] [Some 1, Some 1] = {1}"
    by (simp add: ac1_categories_def valid_pairs_def)
  have d: "calculate_gwet_ac1 [Some (1::int), Some 1] [Some 1, Some 1] = None"
    by (simp add: calculate_gwet_ac1_def valid_pairs_def matches_def)
  have e: "calculate_gwet_ac1 [Some (1::int)] [Some 1] = None"
    by (simp add: calculate_gwet_ac1_def valid_pairs_def matches_def)
  show ?thesis
    using a b by (simp add: c d e flip: length_valid_pairs)
qed

text \<open>
  Claim C8. Percent agreement and Gwet's AC1 do not change when the two raters are swapped,
  whatever the result is (a value or \<open>None\<close>).
\<close>

theorem agreement_and_ac1_symmetric:
  "calculate_agreement values1 values2 = calculate_agreement values2 values1
   \<and> calculate_gwet_ac1 values1 values2 = calculate_gwet_ac1 values2 values1"
proof
  show "calculate_agreement values1 values2 = calculate_agreement values2 values1"
    by (simp only: calculate_agreement_char valid_idx_commute [of values2 values1]
        match_idx_commute [of values2 values1])
  show "calculate_gwet_ac1 values1 values2 = calculate_gwet_ac1 values2 values1"
    by (simp only: calculate_gwet_ac1_char valid_pairs_commute [of values2 values1] length_map
        ac1_categories_commute [of values2 values1] ac1_pe_commute [of values2 values1]
        ac1_pa_commute [of values2 values1])
qed

text \<open>
  Claim C2. For rater lists of one common length, \<open>calculate_krippendorff_alpha\<close> uses
  exactly the subjects with at least 2 non-missing ratings among the raters; \<open>Do\<close> is the
  mean distance over all within-subject pairs of non-missing values, \<open>De\<close> the mean distance
  over all pairs of the values pooled from those subjects, whatever subject they come from;
  the result is \<open>1 - Do / De\<close>, and \<open>None\<close> when fewer than 2 such subjects remain or
  \<open>De = 0\<close>. With three raters a subject with one missing rating is used: it is among the
  subjects of the example, and the result with it (3/4) differs from the result without it.
  The statement holds for any number of raters.
\<close>

theorem krippendorff_alpha_spec:
  assumes "\<forall>vl \<in> set value_lists. length vl = n"
  shows "calculate_krippendorff_alpha value_lists level =
     (if length (kripp_subjects value_lists) < 2 \<or> kripp_De value_lists level = 0 then None
      else Some (1 - kripp_Do value_lists level / kripp_De value_lists level))
   \<and> kripp_subjects [[Some 1, Some 0, None], [Some 1, Some 0, Some 1], [Some 1, Some 0, Some 0]]
       = [[Some 1, Some 1, Some 1], [Some 0, Some 0, Some 0], [None, Some 1, Some 0]]
   \<and> calculate_krippendorff_alpha
        [[Some 1, Some 0, None], [Some 1, Some 0, Some 1], [Some 1, Some 0, Some 0]] ''nominal''
       = Some (3 / 4)
   \<and> calculate_krippendorff_alpha
        [[Some 1, Some 0], [Some 1, Some 0], [Some 1, Some 0]] ''nominal'' = Some 1"
proof (intro conjI)
  show "calculate_krippendorff_alpha value_lists level =
     (if length (kripp_subjects value_lists) < 2 \<or> kripp_De value_lists level = 0 then None
      else Some (1 - kripp_Do value_lists level / kripp_De value_lists level))"
  proof (cases "value_lists = []")
    case True
    then show ?thesis by (simp only: alpha_no_raters)
  next
    case False
    then have "reliability_data value_lists = Some (transpose value_lists)"
      using assms by (rule reliability_data_rectangle)
    then show ?thesis by (rule alpha_of_rows)
  qed
  show "kripp_subjects [[Some 1, Some 0, None], [Some 1, Some 0, Some 1], [Some 1, Some 0, Some 0]]
       = [[Some 1, Some 1, Some 1], [Some 0, Some 0, Some 0], [None, Some 1, Some 0]]"
    by code_simp
  show "calculate_krippendorff_alpha
        [[Some 1, Some 0, None], [Some 1, Some 0, Some 1], [Some 1, Some 0, Some 0]] ''nominal''
       = Some (3 / 4)"
    by code_simp
  show "calculate_krippendorff_alpha
        [[Some 1, Some 0], [Some 1, Some 0], [Some 1, Some 0]] ''nominal'' = Some 1"
    by code_simp
qed

text \<open>The theorem of claim C2 at a three-rater input with a missing rating.\<close>

theorem krippendorff_alpha_spec_witness:
  "list_all (\<lambda>vl. length vl = 3)
     [[Some 1, Some 0, None], [Some 1, Some 0, Some 1], [Some 1, Some 0, Some (0::int)]]
   \<and> length (kripp_subjects
        [[Some 1, Some 0, None], [Some 1, Some 0, Some 1], [Some 1, Some 0, Some 0]]) = 3
   \<and> kripp_Do [[Some 1, Some 0, None], [Some 1, Some 0, Some 1], [Some 1, Some 0, Some 0]]
        ''nominal'' = 1 / 7
   \<and> kripp_De [[Some 1, Some 0, None], [Some 1, Some 0, Some 1], [Some 1, Some 0, Some 0]]
        ''nominal'' = 4 / 7
   \<and> calculate_krippendorff_alpha
        [[Some 1, Some 0, None], [Some 1, Some 0, Some 1], [Some 1, Some 0, Some 0]] ''nominal''
       = Some (1 - (1 / 7) / (4 / 7))"
proof -
  let ?v = "[[Some 1, Some 0, None], [Some 1, Some 0, Some 1], [Some 1, Some 0, Some (0::int)]]"
  have len: "\<forall>vl \<in> set ?v. length vl = 3" by simp
  have q: "length (kripp_subjects ?v) = 3" by code_simp
  have "kripp_Do ?v ''nominal'' = 1 / 7" by code_simp
  moreover have "kripp_De ?v ''nominal'' = 4 / 7" by code_simp
  ultimately show ?thesis
    using krippendorff_alpha_spec [OF len, of "''nominal''"] len q by simp
qed

text \<open>
  Claim C5. \<open>calculate_icc\<close> returns \<open>None\<close> (Missing) when fewer than 3 subjects are
  rated by both raters, and every result of \<open>calculate_icc\<close> and of
  \<open>calculate_icc_multi\<close> other than \<open>None\<close> is a finite number between -1 and 1.
\<close>

theorem icc_bounded:
  "(card (valid_idx values1 values2) < 3 \<longrightarrow> calculate_icc values1 values2 = None)
   \<and> (calculate_icc values1 values2 = Some x \<longrightarrow> in_unit_range x)
   \<and> (calculate_icc_multi value_lists = Some y \<longrightarrow> in_unit_range y)"
proof (intro conjI impI)
  assume "card (valid_idx values1 values2) < 3"
  then have "length (valid_pairs values1 values2) < 3"
    by (simp only: length_valid_pairs)
  then show "calculate_icc values1 values2 = None"
    by (rule calculate_icc_few)
next
  assume "calculate_icc values1 values2 = Some x"
  then show "in_unit_range x" by (rule calculate_icc_range)
next
  assume "calculate_icc_multi value_lists = Some y"
  then show "in_unit_range y" by (rule calculate_icc_multi_range)
qed

text \<open>
  The theorem of claim C5 at concrete inputs: two valid pairs only, a result clamped to -1,
  and a three-rater result.
\<close>

theorem icc_bounded_witness:
  "card (valid_idx [Some 1, Some 2, None, Some 2] [Some (1::rat), Some 3, Some 1, None]) < 3
   \<and> calculate_icc [Some 1, Some 2, None, Some 2] [Some 1, Some 3, Some 1, None] = None
   \<and> calculate_icc [Some 0, Some 5, Some 0] [Some 5, Some 0, Some 5] = Some (Fin (- 1))
   \<and> in_unit_range (Fin (- 1))
   \<and> calculate_icc_multi
        [[Some 1, Some 2, Some 3], [Some 1, Some 2, Some 4], [Some 2, Some 2, Some 4]]
       = Some (Fin (25 / 29))
   \<and> in_unit_range (Fin (25 / 29))"
proof -
  have a: "card (valid_idx [Some 1, Some 2, None, Some 2] [Some (1::rat), Some 3, Some 1, None]) < 3"
    by (simp add: valid_pairs_def flip: length_valid_pairs)
  have b: "calculate_icc [Some 0, Some 5, Some 0] [Some 5, Some 0, Some 5] = Some (Fin (- 1))"
    by code_simp
  have c: "calculate_icc_multi
        [[Some 1, Some 2, Some 3], [Some 1, Some 2, Some 4], [Some 2, Some 2, Some 4]]
       = Some (Fin (25 / 29))"
    by code_simp
  show ?thesis
    using icc_bounded [of "[Some 1, Some 2, None, Some 2]" "[Some 1, Some 3, Some 1, None]"]
      icc_bounded [of "[Some 0, Some 5, Some 0]" "[Some 5, Some 0, Some 5]" "Fin (- 1)"
        "[[Some 1, Some 2, Some 3], [Some 1, Some 2, Some 4], [Some 2, Some 2, Some 4]]"
        "Fin (25 / 29)"]
      a b c
    by simp
qed

text \<open>
  Claim C4. For a matrix with \<open>k \<ge> 3\<close> ratings per subject, \<open>calculate_fleiss_kappa\<close>
  counts only the subjects without a missing rating (removing the other rows beforehand
  does not change the result), needs at least 2 distinct categories among them, and returns
  \<open>(P\<^sub>b\<^sub>a\<^sub>r - P\<^sub>e) / (1 - P\<^sub>e)\<close>, with \<open>P\<^sub>b\<^sub>a\<^sub>r\<close> the mean per-subject agreement of
  Fleiss and \<open>P\<^sub>e\<close> the sum of the squared pooled category proportions; it returns
  \<open>None\<close> when \<open>P\<^sub>e = 1\<close>, and also with fewer than 2 complete subjects.
\<close>

theorem fleiss_kappa_spec:
  assumes "3 \<le> k" and "\<forall>row \<in> set ratings_matrix. length row = k"
  shows "calculate_fleiss_kappa ratings_matrix =
     (if length (complete_rows ratings_matrix) < 2
         \<or> card (fleiss_categories ratings_matrix) < 2
         \<or> fleiss_P_e ratings_matrix k = 1 then None
      else Some (Fin ((fleiss_P_bar ratings_matrix k - fleiss_P_e ratings_matrix k)
                      / (1 - fleiss_P_e ratings_matrix k))))
   \<and> calculate_fleiss_kappa ratings_matrix
       = calculate_fleiss_kappa (filter (list_all (\<lambda>v. v \<noteq> None)) ratings_matrix)"
proof
  have k2: "2 \<le> k" using assms(1) by simp
  show "calculate_fleiss_kappa ratings_matrix =
     (if length (complete_rows ratings_matrix) < 2
         \<or> card (fleiss_categories ratings_matrix) < 2
         \<or> fleiss_P_e ratings_matrix k = 1 then None
      else Some (Fin ((fleiss_P_bar ratings_matrix k - fleiss_P_e ratings_matrix k)
                      / (1 - fleiss_P_e ratings_matrix k))))"
    by (simp add: calculate_fleiss_kappa_char [OF k2 assms(2)])
  show "calculate_fleiss_kappa ratings_matrix
       = calculate_fleiss_kappa (filter (list_all (\<lambda>v. v \<noteq> None)) ratings_matrix)"
    by (simp only: calculate_fleiss_kappa_def complete_rows_filter)
qed

text \<open>
  The theorem of claim C4 for three raters and four subjects, one of them with a missing
  rating.
\<close>

theorem fleiss_kappa_spec_witness:
  "(3::nat) \<le> 3
   \<and> list_all (\<lambda>row. length row = 3)
        [[Some 1, Some 1, Some 0], [Some 1, Some 1, Some 1], [Some 0, Some 0, Some 0],
         [Some 1, None, Some (0::int)]]
   \<and> fleiss_P_bar [[Some 1, Some 1, Some 0], [Some 1, Some 1, Some 1], [Some 0, Some 0, Some 0],
         [Some 1, None, Some 0]] 3 = 7 / 9
   \<and> fleiss_P_e [[Some 1, Some 1, Some 0], [Some 1, Some 1, Some 1], [Some 0, Some 0, Some 0],
         [Some 1, None, Some 0]] 3 = 41 / 81
   \<and> calculate_fleiss_kappa
        [[Some 1, Some 1, Some 0], [Some 1, Some 1, Some 1], [Some 0, Some 0, Some 0],
         [Some 1, None, Some 0]] = Some (Fin ((7 / 9 - 41 / 81) / (1 - 41 / 81)))
   \<and> calculate_fleiss_kappa
        [[Some 1, Some 1, Some 0], [Some 1, Some 1, Some 1], [Some 0, Some 0, Some 0],
         [Some 1, None, Some 0]]
       = calculate_fleiss_kappa
        [[Some 1, Some 1, Some 0], [Some 1, Some 1, Some 1], [Some 0, Some 0, Some 0]]"
proof -
  let ?m = "[[Some 1, Some 1, Some 0], [Some 1, Some 1, Some 1], [Some 0, Some 0, Some 0],
         [Some 1, None, Some (0::int)]]"
  have len: "\<forall>row \<in> set ?m. length row = 3" by simp
  have a: "fleiss_P_bar ?m 3 = 7 / 9" by code_simp
  have b: "fleiss_P_e ?m 3 = 41 / 81" by code_simp
  have c: "length (complete_rows ?m) = 3" by code_simp
  have d: "card (fleiss_categories ?m) = 2" by code_simp
  have t1: "calculate_fleiss_kappa ?m = Some (Fin ((7 / 9 - 41 / 81) / (1 - 41 / 81)))"
    using fleiss_kappa_spec [OF _ len] by (simp add: a b c d)
  have "filter (list_all (\<lambda>v. v \<noteq> None)) ?m
      = [[Some 1, Some 1, Some 0], [Some 1, Some 1, Some 1], [Some 0, Some 0, Some 0]]"
    by simp
  then have t2: "calculate_fleiss_kappa
        [[Some 1, Some 1, Some 0], [Some 1, Some 1, Some 1], [Some 0, Some 0, Some 0]]
       = calculate_fleiss_kappa ?m"
    using fleiss_kappa_spec [OF order_refl len, THEN conjunct2, symmetric] by simp
  show ?thesis
    by (intro conjI) (simp_all only: a b t1 t2, simp_all)
qed



text \<open>
  Claim C10. In the pairwise comparison of the human IRR calculator two missing values
  (NaN or \<open>None\<close>) agree, and a missing value disagrees with a value that is not missing.
  The total counts every platform and variable that both coders have, whatever the values
  are; the agreement rate is the number of agreements divided by that total.
\<close>

theorem human_pairwise_missing:
  "(isna val1 \<and> isna val2 \<longrightarrow> calculate_agreement_human f g val1 val2)
   \<and> (isna val1 \<noteq> isna val2 \<longrightarrow> \<not> calculate_agreement_human f g val1 val2)
   \<and> total (calculate_pairwise_irr f g c1 c2) = length (pairwise_keys c1 c2)
   \<and> agreements (calculate_pairwise_irr f g c1 c2)
       = length (filter (agree_at f g c1 c2) (pairwise_keys c1 c2))
   \<and> disagreements (calculate_pairwise_irr f g c1 c2)
       = length (filter (\<lambda>key. \<not> agree_at f g c1 c2 key) (pairwise_keys c1 c2))
   \<and> agreement_rate (calculate_pairwise_irr f g c1 c2)
       = (if pairwise_keys c1 c2 = [] then 0
          else of_nat (agreements (calculate_pairwise_irr f g c1 c2))
               / of_nat (length (pairwise_keys c1 c2)))"
proof (intro conjI impI)
  show "calculate_agreement_human f g val1 val2" if "isna val1 \<and> isna val2"
    using that by (simp add: calculate_agreement_human_def)
  show "\<not> calculate_agreement_human f g val1 val2" if "isna val1 \<noteq> isna val2"
    using that by (auto simp: calculate_agreement_human_def)
qed (simp_all add: pairwise_result)

text \<open>
  The theorem of claim C10 at one platform with three variables: both values missing, one
  value missing, and two equal values.
\<close>

theorem human_pairwise_missing_witness:
  "isna (PyFloat NaN) \<and> isna PyNone
   \<and> calculate_agreement_human (\<lambda>s. None) (\<lambda>v. []) (PyFloat NaN) PyNone
   \<and> isna PyNone \<noteq> isna (PyInt 1)
   \<and> \<not> calculate_agreement_human (\<lambda>s. None) (\<lambda>v. []) PyNone (PyInt 1)
   \<and> total (calculate_pairwise_irr (\<lambda>s. None) (\<lambda>v. [])
        [(''p1'', [(''A'', PyFloat NaN), (''B'', PyNone), (''C'', PyInt 1)])]
        [(''p1'', [(''A'', PyNone), (''B'', PyInt 1), (''C'', PyInt 1)])]) = 3
   \<and> agreements (calculate_pairwise_irr (\<lambda>s. None) (\<lambda>v. [])
        [(''p1'', [(''A'', PyFloat NaN), (''B'', PyNone), (''C'', PyInt 1)])]
        [(''p1'', [(''A'', PyNone), (''B'', PyInt 1), (''C'', PyInt 1)])]) = 2
   \<and> disagreements (calculate_pairwise_irr (\<lambda>s. None) (\<lambda>v. [])
        [(''p1'', [(''A'', PyFloat NaN), (''B'', PyNone), (''C'', PyInt 1)])]
        [(''p1'', [(''A'', PyNone), (''B'', PyInt 1), (''C'', PyInt 1)])]) = 1
   \<and> agreement_rate (calculate_pairwise_irr (\<lambda>s. None) (\<lambda>v. [])
        [(''p1'', [(''A'', PyFloat NaN), (''B'', PyNone), (''C'', PyInt 1)])]
        [(''p1'', [(''A'', PyNone), (''B'', PyInt 1), (''C'', PyInt 1)])]) = 2 / 3"
proof -
  let ?f = "\<lambda>s :: string. None :: npfloat option"
  let ?g = "\<lambda>v :: raw. [] :: string"
  let ?c1 = "[(''p1'', [(''A'', PyFloat NaN), (''B'', PyNone), (''C'', PyInt 1)])]"
  let ?c2 = "[(''p1'', [(''A'', PyNone), (''B'', PyInt 1), (''C'', PyInt 1)])]"
  have na: "isna (PyFloat NaN)" "isna PyNone" "\<not> isna (PyInt 1)"
    by (simp_all add: isna_def)
  have keys: "pairwise_keys ?c1 ?c2 = [(''p1'', ''A''), (''p1'', ''B''), (''p1'', ''C'')]"
    by code_simp
  have ag: "filter (agree_at ?f ?g ?c1 ?c2) [(''p1'', ''A''), (''p1'', ''B''), (''p1'', ''C'')]
      = [(''p1'', ''A''), (''p1'', ''C'')]"
    by code_simp
  have dis: "filter (\<lambda>key. \<not> agree_at ?f ?g ?c1 ?c2 key)
        [(''p1'', ''A''), (''p1'', ''B''), (''p1'', ''C'')] = [(''p1'', ''B'')]"
    by code_simp
  note T = human_pairwise_missing [of "PyFloat NaN" PyNone ?f ?g ?c1 ?c2, unfolded keys ag dis]
  note U = human_pairwise_missing [of PyNone "PyInt 1" ?f ?g ?c1 ?c2, unfolded keys ag dis]
  have a: "calculate_agreement_human ?f ?g (PyFloat NaN) PyNone"
    using T na by blast
  have b: "\<not> calculate_agreement_human ?f ?g PyNone (PyInt 1)"
    using U na by blast
  have t: "total (calculate_pairwise_irr ?f ?g ?c1 ?c2) = 3"
    using T by simp
  have g: "agreements (calculate_pairwise_irr ?f ?g ?c1 ?c2) = 2"
    using T by simp
  have d: "disagreements (calculate_pairwise_irr ?f ?g ?c1 ?c2) = 1"
    using T by simp
  have r: "agreement_rate (calculate_pairwise_irr ?f ?g ?c1 ?c2) = 2 / 3"
    using T by (simp add: g)
  show ?thesis
    using na a b by (simp only: t g d r) simp
qed



text \<open>
  Claim C7, as amended. Every dataset-level mean of \<open>compare_coders\<close> (overall agreement,
  mean Kappa, mean AC1, mean Alpha, mean ICC) is the arithmetic mean of the per-variable
  results that are neither \<open>None\<close> nor NaN, and \<open>None\<close> when there is none; a result
  without a value changes no mean and no count of valid results, so it is not taken as zero.
  The number of undefined (NaN) results is reported for Cohen's Kappa only; for AC1 and
  Alpha, as for Kappa, the number of valid results is reported.
\<close>

theorem compare_coders_means:
  "overall_agreement (compare_coders_summary rs)
     = (let xs = values_of (map agreement rs)
        in if xs = [] then None else Some (sum_list xs / of_nat (length xs)))
   \<and> mean_gwet_ac1 (compare_coders_summary rs)
     = (let xs = values_of (map gwet_ac1 rs)
        in if xs = [] then None else Some (sum_list xs / of_nat (length xs)))
   \<and> mean_kripp_alpha (compare_coders_summary rs)
     = (let xs = values_of (map kripp_alpha rs)
        in if xs = [] then None else Some (sum_list xs / of_nat (length xs)))
   \<and> mean_kappa (compare_coders_summary rs)
     = (let xs = filter (\<lambda>x. x \<noteq> NaN) (values_of (map kappa rs))
        in if xs = [] then None else Some (np_mean xs))
   \<and> mean_icc (compare_coders_summary rs)
     = (let xs = filter (\<lambda>x. x \<noteq> NaN) (values_of (map icc rs))
        in if xs = [] then None else Some (np_mean xs))
   \<and> np_mean (map Fin ys) = (if ys = [] then NaN else Fin (sum_list ys / of_nat (length ys)))
   \<and> n_kappa_perfect_agreement (compare_coders_summary rs)
     = length (filter (\<lambda>x. x = NaN) (values_of (map kappa rs)))
   \<and> n_kappa_valid (compare_coders_summary rs)
     = length (filter (\<lambda>x. x \<noteq> NaN) (values_of (map kappa rs)))
   \<and> n_ac1_valid (compare_coders_summary rs) = length (values_of (map gwet_ac1 rs))
   \<and> n_kripp_valid (compare_coders_summary rs) = length (values_of (map kripp_alpha rs))
   \<and> (no_value r \<longrightarrow>
        compare_coders_summary (rs1 @ r # rs2)
        = (compare_coders_summary (rs1 @ rs2))
            \<lparr>n_kappa_perfect_agreement :=
               n_kappa_perfect_agreement (compare_coders_summary (rs1 @ r # rs2))\<rparr>)"
proof (intro conjI impI)
  show "np_mean (map Fin ys) = (if ys = [] then NaN else Fin (sum_list ys / of_nat (length ys)))"
    by (rule np_mean_Fin)
  show "compare_coders_summary (rs1 @ r # rs2)
        = (compare_coders_summary (rs1 @ rs2))
            \<lparr>n_kappa_perfect_agreement :=
               n_kappa_perfect_agreement (compare_coders_summary (rs1 @ r # rs2))\<rparr>"
    if "no_value r"
    using that by (rule summary_insert_no_value)
qed (simp_all add: compare_coders_summary_char py_mean_def Let_def)

text \<open>
  The theorem of claim C7 at a result without a value (its Kappa is NaN) put in front of a
  result with values: only the count of NaN Kappas changes.
\<close>

theorem compare_coders_means_witness:
  "no_value \<lparr>agreement = None, kappa = Some NaN, icc = None, gwet_ac1 = None,
             kripp_alpha = None\<rparr>
   \<and> compare_coders_summary
        [\<lparr>agreement = None, kappa = Some NaN, icc = None, gwet_ac1 = None, kripp_alpha = None\<rparr>,
         \<lparr>agreement = Some (1 / 2), kappa = Some (Fin (1 / 4)), icc = None,
          gwet_ac1 = Some (1 / 3), kripp_alpha = None\<rparr>]
       = \<lparr>overall_agreement = Some (1 / 2), mean_kappa = Some (Fin (1 / 4)), n_kappa_valid = 1,
          n_kappa_perfect_agreement = 1, mean_gwet_ac1 = Some (1 / 3), n_ac1_valid = 1,
          mean_kripp_alpha = None, n_kripp_valid = 0, mean_icc = None\<rparr>
   \<and> compare_coders_summary
        [\<lparr>agreement = Some (1 / 2), kappa = Some (Fin (1 / 4)), icc = None,
          gwet_ac1 = Some (1 / 3), kripp_alpha = None\<rparr>]
       = \<lparr>overall_agreement = Some (1 / 2), mean_kappa = Some (Fin (1 / 4)), n_kappa_valid = 1,
          n_kappa_perfect_agreement = 0, mean_gwet_ac1 = Some (1 / 3), n_ac1_valid = 1,
          mean_kripp_alpha = None, n_kripp_valid = 0, mean_icc = None\<rparr>"
proof -
  let ?r = "\<lparr>agreement = None, kappa = Some NaN, icc = None, gwet_ac1 = None,
             kripp_alpha = None\<rparr>"
  let ?v = "\<lparr>agreement = Some (1 / 2), kappa = Some (Fin (1 / 4)), icc = None,
          gwet_ac1 = Some (1 / 3), kripp_alpha = None\<rparr>"
  have nv: "no_value ?r"
    by (simp add: no_value_def)
  have one: "compare_coders_summary [?v]
       = \<lparr>overall_agreement = Some (1 / 2), mean_kappa = Some (Fin (1 / 4)), n_kappa_valid = 1,
          n_kappa_perfect_agreement = 0, mean_gwet_ac1 = Some (1 / 3), n_ac1_valid = 1,
          mean_kripp_alpha = None, n_kripp_valid = 0, mean_icc = None\<rparr>"
    by code_simp
  have nan: "n_kappa_perfect_agreement (compare_coders_summary [?r, ?v]) = 1"
    using compare_coders_means [of "[?r, ?v]"] by simp
  have "compare_coders_summary ([] @ ?r # [?v])
      = (compare_coders_summary ([] @ [?v]))
          \<lparr>n_kappa_perfect_agreement :=
             n_kappa_perfect_agreement (compare_coders_summary ([] @ ?r # [?v]))\<rparr>"
    using compare_coders_means [of _ _ ?r "[]" "[?v]"] nv by blast
  then have two: "compare_coders_summary [?r, ?v]
       = \<lparr>overall_agreement = Some (1 / 2), mean_kappa = Some (Fin (1 / 4)), n_kappa_valid = 1,
          n_kappa_perfect_agreement = 1, mean_gwet_ac1 = Some (1 / 3), n_ac1_valid = 1,
          mean_kripp_alpha = None, n_kripp_valid = 0, mean_icc = None\<rparr>"
    by (simp add: one nan)
  show ?thesis
    using nv one two by simp
qed

text \<open>
  Claim C7 as stated fails: the number of undefined results is not reported for every
  statistic. For a count variable, three subjects all rated 1 by both coders make Alpha
  undefined (three subjects used, expected disagreement 0), and one subject rated by both
  makes it missing; the two summaries are equal.
\<close>

theorem undefined_alpha_not_reported:
  "compare_coders None [(Count, [Some 1, Some 1, Some 1], [Some 1, Some 1, Some 1])]
     = compare_coders None [(Count, [Some 1, None, None], [Some 1, None, None])]
   \<and> 2 \<le> length (kripp_subjects [[Some 1, Some 1, Some 1], [Some 1, Some 1, Some 1]])
   \<and> kripp_De [[Some 1, Some 1, Some 1], [Some 1, Some 1, Some 1]] ''ratio'' = 0
   \<and> length (kripp_subjects [[Some 1, None, None], [Some 1, None, None]]) < 2"
proof -
  have a: "compare_coders None [(Count, [Some 1, Some 1, Some 1], [Some 1, Some 1, Some 1])]
      = \<lparr>overall_agreement = Some 1, mean_kappa = None, n_kappa_valid = 0,
         n_kappa_perfect_agreement = 0, mean_gwet_ac1 = None, n_ac1_valid = 0,
         mean_kripp_alpha = None, n_kripp_valid = 0, mean_icc = None\<rparr>"
    by code_simp
  have b: "compare_coders None [(Count, [Some 1, None, None], [Some 1, None, None])]
      = \<lparr>overall_agreement = Some 1, mean_kappa = None, n_kappa_valid = 0,
         n_kappa_perfect_agreement = 0, mean_gwet_ac1 = None, n_ac1_valid = 0,
         mean_kripp_alpha = None, n_kripp_valid = 0, mean_icc = None\<rparr>"
    by code_simp
  have c: "length (kripp_subjects [[Some 1, Some 1, Some 1], [Some 1, Some 1, Some (1::int)]]) = 3"
    by code_simp
  have d: "kripp_De [[Some 1, Some 1, Some 1], [Some 1, Some 1, Some 1]] ''ratio'' = 0"
    by code_simp
  have e: "length (kripp_subjects [[Some 1, None, None], [Some (1::int), None, None]]) = 1"
    by code_simp
  show ?thesis
    by (simp only: a b c d e) simp
qed

end
